theory Spec2Isabelle
  imports Main "HOL-Library.Sublist"
begin

section \<open>The book service: a shallow embedding of the request handler\<close>

text \<open>
  The server is one request listener over two module-level variables, \<open>books\<close> and
  \<open>nextId\<close>. The embedding passes them explicitly as a \<open>store\<close>; the listener becomes
  the function \<open>handler\<close> from a request and a store to the response object, the new
  store and the exception the listener ends with, if any.

  Strings are HOL strings. Everything the listener takes from the JavaScript runtime
  without the source defining it (the JSON parser, the conversions of a JSON number,
  the case mapping of strings, the byte length of a serialised payload) is a field of
  the record \<open>runtime\<close>, a parameter of the model: the theorems hold for every runtime.
  The clock readings and the random session identifier of one request are fields of
  \<open>env\<close>.

  The listener is an \<open>async\<close> function: an exception it ends with rejects a promise
  that nothing handles. What Node does then is its \<open>--unhandled-rejections\<close> mode, a
  parameter of the process model \<open>proceed\<close> below.
\<close>

subsection \<open>Characters, digits and decimal numerals\<close>

definition is_space :: "char \<Rightarrow> bool" where
  \<comment> \<open>the characters of a regular expression's \<open>\s\<close>, of \<open>trim\<close> and of
      \<open>parseInt\<close>'s leading white space, among the 8-bit characters\<close>
  "is_space c = (of_char c \<in> {9, 10, 11, 12, 13, 32, 160 :: nat})"

definition is_line_terminator :: "char \<Rightarrow> bool" where
  \<comment> \<open>what \<open>.\<close> does not match in a regular expression\<close>
  "is_line_terminator c = (of_char c \<in> {10, 13 :: nat})"

definition is_digit :: "char \<Rightarrow> bool" where
  "is_digit c = (48 \<le> (of_char c :: nat) \<and> (of_char c :: nat) \<le> 57)"

definition digit_val :: "char \<Rightarrow> nat" where
  "digit_val c = of_char c - 48"

definition digit_char :: "nat \<Rightarrow> char" where
  "digit_char d = char_of (48 + d)"

definition ascii_lower :: "char \<Rightarrow> char" where
  \<comment> \<open>the case folding of the \<open>i\<close> flag on the letters of \<open>Bearer\<close>\<close>
  "ascii_lower c =
     (if 65 \<le> (of_char c :: nat) \<and> (of_char c :: nat) \<le> 90 then char_of (of_char c + (32 :: nat)) else c)"

definition Number_digits :: "string \<Rightarrow> nat" where
  \<comment> \<open>the mathematical value of a string of decimal digits\<close>
  "Number_digits ds = foldl (\<lambda>a c. 10 * a + digit_val c) 0 ds"

function show_nat :: "nat \<Rightarrow> string" where
  \<comment> \<open>\<open>String(n)\<close> for a natural number: its decimal numeral\<close>
  "show_nat n = (if n < 10 then [digit_char n] else show_nat (n div 10) @ [digit_char (n mod 10)])"
  by pat_completeness auto
termination
  by (relation "measure (\<lambda>n. n)") auto

declare show_nat.simps [simp del]

definition show_int :: "int \<Rightarrow> string" where
  "show_int i = (if i < 0 then CHR ''-'' # show_nat (nat (- i)) else show_nat (nat i))"

fun includes_str :: "string \<Rightarrow> string \<Rightarrow> bool" where
  \<comment> \<open>\<open>s.includes(t)\<close>: \<open>t\<close> occurs in \<open>s\<close> as a contiguous substring\<close>
  "includes_str [] t = (t = [])"
| "includes_str (c # cs) t = (prefix t (c # cs) \<or> includes_str cs t)"

fun split_on :: "char \<Rightarrow> string \<Rightarrow> string list" where
  \<comment> \<open>\<open>s.split(sep)\<close> for a one-character separator\<close>
  "split_on sep [] = [[]]"
| "split_on sep (c # cs) =
     (if c = sep then [] # split_on sep cs
      else (case split_on sep cs of [] \<Rightarrow> [[c]] | p # ps \<Rightarrow> (c # p) # ps))"

definition trim :: "string \<Rightarrow> string" where
  "trim s = rev (dropWhile is_space (rev (dropWhile is_space s)))"

subsection \<open>Numbers\<close>

text \<open>
  \<open>parseInt\<close> and \<open>Number\<close> yield a Number: \<open>NaN\<close>, an infinity or a finite double,
  which is an integer here. \<open>round53\<close> is the Number value of a mathematical integer (round to
  nearest, ties to even, 53 bits of mantissa, overflow to infinity); every integer of
  magnitude below \<open>2^53\<close> is exact. The sign of zero is not modelled: the listener
  cannot observe it.
\<close>

datatype jsnum = NaN | Fin int | PInf | NInf

function bit_len :: "nat \<Rightarrow> nat" where
  "bit_len n = (if n = 0 then 0 else Suc (bit_len (n div 2)))"
  by pat_completeness auto
termination
  by (relation "measure (\<lambda>n. n)") auto

declare bit_len.simps [simp del]

definition round53 :: "int \<Rightarrow> jsnum" where
  "round53 i =
     (let a = nat \<bar>i\<bar> in
      if a < 2 ^ 53 then Fin i
      else
        let e = bit_len a - 53;
            q = a div 2 ^ e;
            r = a mod 2 ^ e;
            h = 2 ^ (e - 1);
            q' = (if h < r \<or> (r = h \<and> odd q) then q + 1 else q)
        in if 2 ^ 1024 \<le> q' * 2 ^ e then (if i < 0 then NInf else PInf)
           else Fin (sgn i * int (q' * 2 ^ e)))"

fun js_add :: "jsnum \<Rightarrow> jsnum \<Rightarrow> jsnum" where
  "js_add NaN _ = NaN"
| "js_add _ NaN = NaN"
| "js_add PInf NInf = NaN"
| "js_add NInf PInf = NaN"
| "js_add PInf _ = PInf"
| "js_add _ PInf = PInf"
| "js_add NInf _ = NInf"
| "js_add _ NInf = NInf"
| "js_add (Fin a) (Fin b) = round53 (a + b)"

fun js_neg :: "jsnum \<Rightarrow> jsnum" where
  "js_neg NaN = NaN"
| "js_neg (Fin a) = Fin (- a)"
| "js_neg PInf = NInf"
| "js_neg NInf = PInf"

definition js_sub :: "jsnum \<Rightarrow> jsnum \<Rightarrow> jsnum" where
  "js_sub a b = js_add a (js_neg b)"

fun js_sgn :: "jsnum \<Rightarrow> int" where
  "js_sgn NaN = 0"
| "js_sgn (Fin a) = sgn a"
| "js_sgn PInf = 1"
| "js_sgn NInf = - 1"

fun js_mul :: "jsnum \<Rightarrow> jsnum \<Rightarrow> jsnum" where
  "js_mul NaN _ = NaN"
| "js_mul _ NaN = NaN"
| "js_mul (Fin a) (Fin b) = round53 (a * b)"
| "js_mul a b =
     (if js_sgn a * js_sgn b = 0 then NaN
      else if 0 < js_sgn a * js_sgn b then PInf else NInf)"

definition parseInt :: "string \<Rightarrow> jsnum" where
  \<comment> \<open>\<open>parseInt(s, 10)\<close>: white space, an optional sign, the longest run of digits\<close>
  "parseInt s =
     (let t = dropWhile is_space s;
          neg = (t \<noteq> [] \<and> hd t = CHR ''-'');
          u = (if t \<noteq> [] \<and> (hd t = CHR ''-'' \<or> hd t = CHR ''+'') then tl t else t);
          ds = takeWhile is_digit u
      in if ds = [] then NaN
         else round53 ((if neg then - 1 else 1) * int (Number_digits ds)))"

definition js_slice :: "'a list \<Rightarrow> jsnum \<Rightarrow> jsnum \<Rightarrow> 'a list" where
  \<comment> \<open>\<open>xs.slice(start, end)\<close>: a negative index counts from the end, \<open>NaN\<close> is 0,
      both ends are clamped to the list\<close>
  "js_slice xs start fin =
     (let len = int (length xs);
          rel = (\<lambda>x. case x of
                   NaN \<Rightarrow> 0
                 | NInf \<Rightarrow> 0
                 | PInf \<Rightarrow> len
                 | Fin i \<Rightarrow> if i < 0 then max (len + i) 0 else min i len);
          k = rel start;
          f = rel fin
      in take (nat (f - k)) (drop (nat k) xs))"

subsection \<open>JSON values and the runtime\<close>

text \<open>
  A request body is whatever \<open>JSON.parse\<close> returns. The type \<open>'n\<close> stands for the
  Number values of the runtime. A property read that finds nothing is \<open>undefined\<close>,
  modelled as \<open>None\<close>.
\<close>

datatype 'n jsval =
    JNull
  | JBool bool
  | JNum 'n
  | JStr string
  | JArr "'n jsval list"
  | JObj "(string \<times> 'n jsval) list"

datatype js_error = TypeError | StreamFailure | ERR_HTTP_HEADERS_SENT

record book =
  book_id :: jsnum
  title :: string
  author :: string

text \<open>
  Book ids and the counter are Numbers. \<open>nextId++\<close> adds one in double arithmetic:
  below \<open>2^53\<close> the sum is exact, at \<open>2^53\<close> it rounds back to \<open>2^53\<close> and the counter
  stays there. The id of a path is \<open>Number\<close> of its digits, the nearest double or
  \<open>Infinity\<close>, and \<open>===\<close> compares it with the ids of the records.
\<close>

record store =
  books :: "book list"
  nextId :: jsnum

definition init_store :: store where
  "init_store =
     \<lparr>books =
        [\<lparr>book_id = Fin 1, title = ''Eloquent JS'', author = ''Marijn Haverbeke''\<rparr>,
         \<lparr>book_id = Fin 2, title = ''You Don't Know JS'', author = ''Kyle Simpson''\<rparr>,
         \<lparr>book_id = Fin 3, title = ''Clean Code'', author = ''Robert C. Martin''\<rparr>],
      nextId = Fin 4\<rparr>"

definition strict_eq :: "jsnum \<Rightarrow> jsnum \<Rightarrow> bool" where
  \<comment> \<open>\<open>a === b\<close> on Numbers: \<open>NaN\<close> equals nothing\<close>
  "strict_eq a b = (a \<noteq> NaN \<and> a = b)"

datatype payload =
    ListPayload jsnum jsnum nat "book list"
      \<comment> \<open>\<open>{page, limit, total, data}\<close>\<close>
  | DataPayload book
      \<comment> \<open>\<open>{data}\<close>\<close>
  | DataCookiesPayload book "string \<rightharpoonup> string"
      \<comment> \<open>\<open>{data, cookies}\<close>\<close>
  | ErrorPayload string
      \<comment> \<open>\<open>{error}\<close>\<close>

record 'n runtime =
  JSON_parse :: "string \<Rightarrow> 'n jsval option"
    \<comment> \<open>\<open>None\<close> when \<open>JSON.parse\<close> throws\<close>
  Number_ToBoolean :: "'n \<Rightarrow> bool"
  Number_toString :: "'n \<Rightarrow> string"
  toLowerCase :: "string \<Rightarrow> string"
  byteLength_stringify :: "payload \<Rightarrow> nat"
    \<comment> \<open>\<open>Buffer.byteLength(JSON.stringify(payload))\<close>\<close>

record env =
  now_start :: int
    \<comment> \<open>what \<open>nowMs()\<close> returns at the start of the listener\<close>
  now_end :: int
    \<comment> \<open>what \<open>nowMs()\<close> returns in the \<open>finally\<close> block\<close>
  random_hex :: string
    \<comment> \<open>\<open>crypto.randomBytes(12).toString('hex')\<close>\<close>

fun ToBoolean :: "'n runtime \<Rightarrow> 'n jsval \<Rightarrow> bool" where
  "ToBoolean rt JNull = False"
| "ToBoolean rt (JBool b) = b"
| "ToBoolean rt (JNum n) = Number_ToBoolean rt n"
| "ToBoolean rt (JStr s) = (s \<noteq> [])"
| "ToBoolean rt (JArr xs) = True"
| "ToBoolean rt (JObj kvs) = True"

definition truthy :: "'n runtime \<Rightarrow> 'n jsval option \<Rightarrow> bool" where
  "truthy rt v = (case v of None \<Rightarrow> False | Some x \<Rightarrow> ToBoolean rt x)"

fun get_prop :: "'n jsval \<Rightarrow> string \<Rightarrow> 'n jsval option" where
  \<comment> \<open>\<open>body.title\<close> and \<open>body.author\<close>: an own property of a parsed object; strings,
      numbers, booleans and arrays have no member of these names. The listener reads
      no property of \<open>null\<close>: \<open>!body\<close> is tested first.\<close>
  "get_prop (JObj kvs) k = map_of kvs k"
| "get_prop _ k = None"

fun js_String :: "'n runtime \<Rightarrow> 'n jsval \<Rightarrow> string option"
  and join_elems :: "'n runtime \<Rightarrow> 'n jsval list \<Rightarrow> string list option" where
  \<comment> \<open>\<open>String(v)\<close>; \<open>None\<close> when the conversion throws a TypeError, which it does on an
      object that has an own property \<open>toString\<close> (a JSON value is not callable, and
      \<open>valueOf\<close> returns the object). An array is joined with commas, \<open>null\<close>
      elements as the empty string.\<close>
  "js_String rt JNull = Some ''null''"
| "js_String rt (JBool b) = Some (if b then ''true'' else ''false'')"
| "js_String rt (JNum n) = Some (Number_toString rt n)"
| "js_String rt (JStr s) = Some s"
| "js_String rt (JArr xs) =
     (case join_elems rt xs of
        None \<Rightarrow> None
      | Some ss \<Rightarrow> Some (concat (case ss of [] \<Rightarrow> [] | t # ts \<Rightarrow> t # map (\<lambda>u. CHR '','' # u) ts)))"
| "js_String rt (JObj kvs) =
     (if map_of kvs ''toString'' \<noteq> None then None else Some ''[object Object]'')"
| "join_elems rt [] = Some []"
| "join_elems rt (x # xs) =
     (case (case x of JNull \<Rightarrow> Some [] | _ \<Rightarrow> js_String rt x) of
        None \<Rightarrow> None
      | Some s \<Rightarrow> (case join_elems rt xs of None \<Rightarrow> None | Some ss \<Rightarrow> Some (s # ss)))"

definition String_of :: "'n runtime \<Rightarrow> 'n jsval option \<Rightarrow> string option" where
  \<comment> \<open>\<open>String(body.title)\<close>, where the property read may be \<open>undefined\<close>\<close>
  "String_of rt v = (case v of None \<Rightarrow> Some ''undefined'' | Some x \<Rightarrow> js_String rt x)"

subsection \<open>The request and the response object\<close>

datatype body_stream =
    StreamEnd string
      \<comment> \<open>the stream ended; the text is the concatenation of its chunks\<close>
  | StreamError
      \<comment> \<open>the stream emitted \<open>error\<close>\<close>

text \<open>
  A request is what the listener reads of \<open>req\<close>: the path and the query parameters
  are those of the parsed URL. A request whose URL does not parse makes \<open>new URL\<close>
  throw before the \<open>try\<close> and gets no answer from the listener; it is not a value of
  this type.
\<close>

record request =
  req_method :: string
  pathname :: string
  searchParams :: "(string \<times> string) list"
  authorization :: "string option"
  cookie :: "string option"
  body_stream :: body_stream

record wire =
  w_status :: nat
  w_headers :: "(string \<times> string) list"
  w_body :: "payload option"

text \<open>
  The response object of Node's \<open>http\<close> module: \<open>end\<close> writes the status line, the
  headers set so far and the body; from then on \<open>setHeader\<close> throws
  \<open>ERR_HTTP_HEADERS_SENT\<close>. \<open>flushed\<close> is what went to the client. A request stream
  emits \<open>error\<close> when its connection fails, and the response object of that
  connection is destroyed with it: \<open>end\<close> on a destroyed response writes nothing and
  generates no header block, so \<open>setHeader\<close> goes on succeeding.
\<close>

record res =
  statusCode :: nat
  headers :: "(string \<times> string) list"
  flushed :: "wire option"
  destroyed :: bool

definition new_res :: res where
  "new_res = \<lparr>statusCode = 200, headers = [], flushed = None, destroyed = False\<rparr>"

fun put_header :: "string \<Rightarrow> string \<Rightarrow> (string \<times> string) list \<Rightarrow> (string \<times> string) list" where
  "put_header n v [] = [(n, v)]"
| "put_header n v ((k, w) # hs) = (if k = n then (n, v) # hs else (k, w) # put_header n v hs)"

definition setHeader :: "string \<Rightarrow> string \<Rightarrow> res \<Rightarrow> js_error + res" where
  "setHeader n v r =
     (if flushed r \<noteq> None then Inl ERR_HTTP_HEADERS_SENT
      else Inr (r\<lparr>headers := put_header n v (headers r)\<rparr>))"

definition res_end :: "payload option \<Rightarrow> res \<Rightarrow> res" where
  "res_end b r =
     (if destroyed r then r
      else
        (case flushed r of
           Some w \<Rightarrow> r
         | None \<Rightarrow> r\<lparr>flushed := Some \<lparr>w_status = statusCode r, w_headers = headers r, w_body = b\<rparr>\<rparr>))"

definition sendJSON :: "'n runtime \<Rightarrow> nat \<Rightarrow> payload \<Rightarrow> res \<Rightarrow> js_error + res" where
  "sendJSON rt status p r =
     (case setHeader ''Content-Type'' ''application/json; charset=utf-8'' r of
        Inl e \<Rightarrow> Inl e
      | Inr r1 \<Rightarrow>
          (case setHeader ''Content-Length'' (show_nat (byteLength_stringify rt p)) r1 of
             Inl e \<Rightarrow> Inl e
           | Inr r2 \<Rightarrow> Inr (res_end (Some p) (r2\<lparr>statusCode := status\<rparr>))))"

fun add_cookie :: "(string \<rightharpoonup> string) \<Rightarrow> string \<Rightarrow> (string \<rightharpoonup> string)" where
  \<comment> \<open>one step of the \<open>forEach\<close>: \<open>[k, v] = part.split('=')\<close>; an assignment to
      \<open>__proto__\<close> with a string creates no property\<close>
  "add_cookie out part =
     (case split_on CHR ''='' part of
        [] \<Rightarrow> out
      | k # vs \<Rightarrow>
          if k = [] then out
          else if trim k = ''__proto__'' then out
          else out(trim k \<mapsto> trim (case vs of [] \<Rightarrow> [] | v # _ \<Rightarrow> v)))"

definition parseCookies :: "string option \<Rightarrow> (string \<rightharpoonup> string)" where
  "parseCookies cookieHeader =
     (case cookieHeader of
        None \<Rightarrow> Map.empty
      | Some h \<Rightarrow> if h = [] then Map.empty else foldl add_cookie Map.empty (split_on CHR '';'' h))"

definition readBody :: "'n runtime \<Rightarrow> body_stream \<Rightarrow> js_error + 'n jsval" where
  \<comment> \<open>the value the promise resolves with, or the error it rejects with\<close>
  "readBody rt bs =
     (case bs of
        StreamError \<Rightarrow> Inl StreamFailure
      | StreamEnd raw \<Rightarrow>
          Inr (if raw = [] then JNull
               else (case JSON_parse rt raw of Some v \<Rightarrow> v | None \<Rightarrow> JStr raw)))"

definition DEMO_BEARER :: string where
  "DEMO_BEARER = ''secret-token-123''"

definition bookMatch :: "string \<Rightarrow> string option option" where
  \<comment> \<open>\<open>pathname.match(/^\/books(?:\/(\d+))?$/)\<close>: \<open>None\<close> for no match, otherwise the
      first group, \<open>None\<close> when it took no part\<close>
  "bookMatch p =
     (if p = ''/books'' then Some None
      else if take 7 p = ''/books/'' \<and> drop 7 p \<noteq> [] \<and> list_all is_digit (drop 7 p)
        then Some (Some (drop 7 p))
      else None)"

definition path_id :: "string \<Rightarrow> jsnum option" where
  \<comment> \<open>\<open>bookMatch && bookMatch[1]\<close>, then \<open>Number(bookMatch[1])\<close>: the digits' value as
      a double\<close>
  "path_id p =
     (case bookMatch p of
        Some (Some ds) \<Rightarrow> Some (round53 (int (Number_digits ds)))
      | _ \<Rightarrow> None)"

fun bearer_try :: "string \<Rightarrow> nat \<Rightarrow> string option" where
  \<comment> \<open>the backtracking of \<open>\s+(.+)$\<close>: \<open>\s+\<close> takes \<open>k\<close> characters, as many as it can
      first; \<open>(.+)$\<close> takes the rest, which must be non-empty and without a line
      terminator\<close>
  "bearer_try rest 0 = None"
| "bearer_try rest (Suc k) =
     (let t = drop (Suc k) rest
      in if t \<noteq> [] \<and> list_all (\<lambda>c. \<not> is_line_terminator c) t then Some t
         else bearer_try rest k)"

definition matchBearer :: "string \<Rightarrow> string option" where
  \<comment> \<open>\<open>auth.match(/^Bearer\s+(.+)$/i)\<close>, then its first group: the token\<close>
  "matchBearer auth =
     (if map ascii_lower (take 6 auth) = ''bearer''
      then bearer_try (drop 6 auth) (length (takeWhile is_space (drop 6 auth)))
      else None)"

definition token_of :: "request \<Rightarrow> string option" where
  \<comment> \<open>\<open>auth = req.headers.authorization || ''\<close>, and the token read from it\<close>
  "token_of req = matchBearer (case authorization req of None \<Rightarrow> [] | Some a \<Rightarrow> a)"

fun findIndex :: "('a \<Rightarrow> bool) \<Rightarrow> 'a list \<Rightarrow> nat option" where
  \<comment> \<open>\<open>None\<close> is the source's \<open>-1\<close>\<close>
  "findIndex P [] = None"
| "findIndex P (x # xs) = (if P x then Some 0 else map_option Suc (findIndex P xs))"

subsection \<open>The routes\<close>

text \<open>
  What a stretch of the listener leaves behind: the exception it threw, if any, the
  store and the response object.
\<close>

record outcome =
  thrown :: "js_error option"
  store_of :: store
  res_of :: res

definition respond :: "'n runtime \<Rightarrow> nat \<Rightarrow> payload \<Rightarrow> store \<Rightarrow> res \<Rightarrow> outcome" where
  \<comment> \<open>\<open>return sendJSON(res, status, payload)\<close>\<close>
  "respond rt status p st r =
     (case sendJSON rt status p r of
        Inl e \<Rightarrow> \<lparr>thrown = Some e, store_of = st, res_of = r\<rparr>
      | Inr r' \<Rightarrow> \<lparr>thrown = None, store_of = st, res_of = r'\<rparr>)"

definition throw :: "js_error \<Rightarrow> store \<Rightarrow> res \<Rightarrow> outcome" where
  "throw e st r = \<lparr>thrown = Some e, store_of = st, res_of = r\<rparr>"

definition param_or :: "(string \<times> string) list \<Rightarrow> string \<Rightarrow> string \<Rightarrow> string" where
  \<comment> \<open>\<open>searchParams.get(name) || dflt\<close>\<close>
  "param_or sp name dflt =
     (case map_of sp name of None \<Rightarrow> dflt | Some v \<Rightarrow> if v = [] then dflt else v)"

definition filtered :: "'n runtime \<Rightarrow> request \<Rightarrow> store \<Rightarrow> book list" where
  \<comment> \<open>\<open>list\<close> after the author filter\<close>
  "filtered rt req st =
     (case map_of (searchParams req) ''author'' of
        None \<Rightarrow> books st
      | Some a \<Rightarrow>
          if a = [] then books st
          else filter (\<lambda>b. includes_str (toLowerCase rt (author b)) (toLowerCase rt a)) (books st))"

definition limit_of :: "request \<Rightarrow> jsnum" where
  "limit_of req = parseInt (param_or (searchParams req) ''limit'' ''10'')"

definition page_of :: "request \<Rightarrow> jsnum" where
  "page_of req = parseInt (param_or (searchParams req) ''page'' ''1'')"

definition page_items :: "'n runtime \<Rightarrow> request \<Rightarrow> store \<Rightarrow> book list" where
  \<comment> \<open>\<open>pageItems\<close>\<close>
  "page_items rt req st =
     (let limit = limit_of req;
          page = page_of req;
          list = filtered rt req st;
          startIdx = js_mul (js_sub page (Fin 1)) limit
      in js_slice list startIdx (js_add startIdx limit))"

definition list_books :: "'n runtime \<Rightarrow> request \<Rightarrow> store \<Rightarrow> res \<Rightarrow> outcome" where
  \<comment> \<open>GET /books\<close>
  "list_books rt req st r =
     respond rt 200
       (ListPayload (page_of req) (limit_of req) (length (filtered rt req st))
          (page_items rt req st))
       st r"

definition get_book :: "'n runtime \<Rightarrow> request \<Rightarrow> jsnum \<Rightarrow> store \<Rightarrow> res \<Rightarrow> outcome" where
  \<comment> \<open>GET /books/:id\<close>
  "get_book rt req i st r =
     (case find (\<lambda>b. strict_eq (book_id b) i) (books st) of
        None \<Rightarrow> respond rt 404 (ErrorPayload ''Not found'') st r
      | Some b \<Rightarrow>
          (case setHeader ''X-Server-Note'' ''served-by-node-http'' r of
             Inl e \<Rightarrow> throw e st r
           | Inr r1 \<Rightarrow> respond rt 200 (DataCookiesPayload b (parseCookies (cookie req))) st r1))"

definition unauthorized :: "'n runtime \<Rightarrow> store \<Rightarrow> res \<Rightarrow> outcome" where
  "unauthorized rt st r =
     (case setHeader ''WWW-Authenticate''
             (''Bearer realm='' @ [CHR 0x22] @ ''simple-demo'' @ [CHR 0x22]) r of
        Inl e \<Rightarrow> throw e st r
      | Inr r1 \<Rightarrow>
          respond rt 401 (ErrorPayload ''Unauthorized - invalid or missing bearer token'') st r1)"

definition missing_fields :: "'n runtime \<Rightarrow> 'n jsval \<Rightarrow> bool" where
  \<comment> \<open>\<open>!body || !body.title || !body.author\<close>\<close>
  "missing_fields rt body =
     (if \<not> ToBoolean rt body then True
      else if \<not> truthy rt (get_prop body ''title'') then True
      else \<not> truthy rt (get_prop body ''author''))"

definition create_book :: "'n runtime \<Rightarrow> env \<Rightarrow> request \<Rightarrow> store \<Rightarrow> res \<Rightarrow> outcome" where
  \<comment> \<open>POST /books. The object literal reads \<open>nextId++\<close> before it converts the title.
      A rejected \<open>readBody\<close> means the connection failed: the response is destroyed.\<close>
  "create_book rt ev req st r =
     (case readBody rt (body_stream req) of
        Inl e \<Rightarrow> throw e st (r\<lparr>destroyed := True\<rparr>)
      | Inr body \<Rightarrow>
          if missing_fields rt body
          then respond rt 400 (ErrorPayload ''Missing title or author in request body'') st r
          else
            let i = nextId st; st1 = st\<lparr>nextId := js_add (nextId st) (Fin 1)\<rparr> in
            (case String_of rt (get_prop body ''title'') of
               None \<Rightarrow> throw TypeError st1 r
             | Some t \<Rightarrow>
                 (case String_of rt (get_prop body ''author'') of
                    None \<Rightarrow> throw TypeError st1 r
                  | Some a \<Rightarrow>
                      let bk = \<lparr>book_id = i, title = t, author = a\<rparr>;
                          st2 = st1\<lparr>books := books st1 @ [bk]\<rparr>
                      in (case setHeader ''Set-Cookie''
                                 (''sessionId='' @ random_hex ev @ ''; HttpOnly; Path=/'') r of
                            Inl e \<Rightarrow> throw e st2 r
                          | Inr r1 \<Rightarrow> respond rt 201 (DataPayload bk) st2 r1))))"

definition replace_book :: "'n runtime \<Rightarrow> request \<Rightarrow> jsnum \<Rightarrow> store \<Rightarrow> res \<Rightarrow> outcome" where
  \<comment> \<open>PUT /books/:id\<close>
  "replace_book rt req i st r =
     (case readBody rt (body_stream req) of
        Inl e \<Rightarrow> throw e st (r\<lparr>destroyed := True\<rparr>)
      | Inr body \<Rightarrow>
          if missing_fields rt body
          then respond rt 400 (ErrorPayload ''Missing title or author in request body'') st r
          else
            (case findIndex (\<lambda>b. strict_eq (book_id b) i) (books st) of
               None \<Rightarrow> respond rt 404 (ErrorPayload ''Not found'') st r
             | Some idx \<Rightarrow>
                 (case String_of rt (get_prop body ''title'') of
                    None \<Rightarrow> throw TypeError st r
                  | Some t \<Rightarrow>
                      (case String_of rt (get_prop body ''author'') of
                         None \<Rightarrow> throw TypeError st r
                       | Some a \<Rightarrow>
                           let bk = \<lparr>book_id = i, title = t, author = a\<rparr>
                           in respond rt 200 (DataPayload bk)
                                (st\<lparr>books := (books st)[idx := bk]\<rparr>) r))))"

definition update_book :: "'n runtime \<Rightarrow> request \<Rightarrow> jsnum \<Rightarrow> store \<Rightarrow> res \<Rightarrow> outcome" where
  \<comment> \<open>PATCH /books/:id. \<open>book\<close> is the first record of that id, changed in place: the
      title is assigned before the author is converted.\<close>
  "update_book rt req i st r =
     (case readBody rt (body_stream req) of
        Inl e \<Rightarrow> throw e st (r\<lparr>destroyed := True\<rparr>)
      | Inr body \<Rightarrow>
          if \<not> ToBoolean rt body then respond rt 400 (ErrorPayload ''Missing body'') st r
          else
            (case findIndex (\<lambda>b. strict_eq (book_id b) i) (books st) of
               None \<Rightarrow> respond rt 404 (ErrorPayload ''Not found'') st r
             | Some idx \<Rightarrow>
                 (case (case get_prop body ''title'' of
                          None \<Rightarrow> Some (books st ! idx)
                        | Some v \<Rightarrow> map_option (\<lambda>t. (books st ! idx)\<lparr>title := t\<rparr>) (js_String rt v)) of
                    None \<Rightarrow> throw TypeError st r
                  | Some b1 \<Rightarrow>
                      let st1 = st\<lparr>books := (books st)[idx := b1]\<rparr> in
                      (case (case get_prop body ''author'' of
                               None \<Rightarrow> Some b1
                             | Some v \<Rightarrow> map_option (\<lambda>a. b1\<lparr>author := a\<rparr>) (js_String rt v)) of
                         None \<Rightarrow> throw TypeError st1 r
                       | Some b2 \<Rightarrow>
                           respond rt 200 (DataPayload b2) (st\<lparr>books := (books st)[idx := b2]\<rparr>) r))))"

definition delete_book :: "'n runtime \<Rightarrow> jsnum \<Rightarrow> store \<Rightarrow> res \<Rightarrow> outcome" where
  \<comment> \<open>DELETE /books/:id: \<open>books.splice(idx, 1)[0]\<close>\<close>
  "delete_book rt i st r =
     (case findIndex (\<lambda>b. strict_eq (book_id b) i) (books st) of
        None \<Rightarrow> respond rt 404 (ErrorPayload ''Not found'') st r
      | Some idx \<Rightarrow>
          respond rt 200 (DataPayload (books st ! idx))
            (st\<lparr>books := take idx (books st) @ drop (Suc idx) (books st)\<rparr>) r)"

definition try_block :: "'n runtime \<Rightarrow> env \<Rightarrow> request \<Rightarrow> store \<Rightarrow> res \<Rightarrow> outcome" where
  \<comment> \<open>the body of the \<open>try\<close>, the routes in the source's order\<close>
  "try_block rt ev req st r =
     (if req_method req = ''GET'' \<and> pathname req = ''/books'' then list_books rt req st r
      else if req_method req = ''GET'' \<and> path_id (pathname req) \<noteq> None
        then get_book rt req (the (path_id (pathname req))) st r
      else if req_method req \<in> set [''POST'', ''PUT'', ''PATCH'', ''DELETE'']
              \<and> take 6 (pathname req) = ''/books''
              \<and> token_of req \<noteq> Some DEMO_BEARER
        then unauthorized rt st r
      else if req_method req = ''POST'' \<and> pathname req = ''/books'' then create_book rt ev req st r
      else if req_method req = ''PUT'' \<and> path_id (pathname req) \<noteq> None
        then replace_book rt req (the (path_id (pathname req))) st r
      else if req_method req = ''PATCH'' \<and> path_id (pathname req) \<noteq> None
        then update_book rt req (the (path_id (pathname req))) st r
      else if req_method req = ''DELETE'' \<and> path_id (pathname req) \<noteq> None
        then delete_book rt (the (path_id (pathname req))) st r
      else respond rt 404 (ErrorPayload ''Route not found'') st r)"

definition cors :: "res \<Rightarrow> js_error + res" where
  \<comment> \<open>the three headers set before anything else\<close>
  "cors r =
     (case setHeader ''Access-Control-Allow-Origin'' ''*'' r of
        Inl e \<Rightarrow> Inl e
      | Inr r1 \<Rightarrow>
          (case setHeader ''Access-Control-Allow-Methods'' ''GET,POST,PUT,PATCH,DELETE,OPTIONS'' r1 of
             Inl e \<Rightarrow> Inl e
           | Inr r2 \<Rightarrow> setHeader ''Access-Control-Allow-Headers'' ''Content-Type,Authorization'' r2))"

definition handler :: "'n runtime \<Rightarrow> env \<Rightarrow> request \<Rightarrow> store \<Rightarrow> outcome" where
  \<comment> \<open>the request listener: the preflight answer comes before the \<open>try\<close>; an exception
      of the \<open>try\<close> is answered with 500 in the \<open>catch\<close> (which writes nothing when the
      response is destroyed); the \<open>finally\<close> sets the timing header, and an exception
      it throws replaces what was pending\<close>
  "handler rt ev req st =
     (case cors new_res of
        Inl e \<Rightarrow> throw e st new_res
      | Inr r \<Rightarrow>
          if req_method req = ''OPTIONS''
          then \<lparr>thrown = None, store_of = st, res_of = res_end None (r\<lparr>statusCode := 204\<rparr>)\<rparr>
          else
            let t = try_block rt ev req st r;
                c = (case thrown t of
                       None \<Rightarrow> t
                     | Some e \<Rightarrow>
                         respond rt 500 (ErrorPayload ''Internal Server Error'') (store_of t) (res_of t))
            in (case setHeader ''X-Response-Time-ms'' (show_int (now_end ev - now_start ev)) (res_of c) of
                  Inl e \<Rightarrow> c\<lparr>thrown := Some e\<rparr>
                | Inr r' \<Rightarrow> c\<lparr>res_of := r'\<rparr>))"

definition sent :: "outcome \<Rightarrow> wire option" where
  \<comment> \<open>the response the client received\<close>
  "sent out = flushed (res_of out)"

definition status_of :: "outcome \<Rightarrow> nat option" where
  "status_of out = map_option w_status (sent out)"

definition body_of :: "outcome \<Rightarrow> payload option" where
  "body_of out = (case sent out of None \<Rightarrow> None | Some w \<Rightarrow> w_body w)"

definition header_names :: "outcome \<Rightarrow> string set" where
  "header_names out = (case sent out of None \<Rightarrow> {} | Some w \<Rightarrow> fst ` set (w_headers w))"

subsection \<open>The process\<close>

text \<open>
  The server process holds the store while it runs. The listener's promise is
  rejected when the listener ends with an exception, and nothing handles the
  rejection. With \<open>--unhandled-rejections=throw\<close>, Node's default, and with
  \<open>strict\<close>, the rejection is raised as an uncaught exception; the program installs
  no handler for it, so the process ends: this is \<open>Fatal\<close>. With \<open>warn\<close>, \<open>none\<close> and
  \<open>warn-with-error-code\<close> the process goes on: this is \<open>Tolerated\<close>. The answer of a
  request is what its response wrote before that; a process that has ended answers
  nothing.
\<close>

datatype unhandled_rejections = Fatal | Tolerated

datatype process = Running store | Exited

fun answer :: "'n runtime \<Rightarrow> env \<Rightarrow> request \<Rightarrow> process \<Rightarrow> wire option" where
  "answer rt ev req Exited = None"
| "answer rt ev req (Running st) = sent (handler rt ev req st)"

definition proceed :: "'n runtime \<Rightarrow> unhandled_rejections \<Rightarrow> env \<Rightarrow> request \<Rightarrow> process \<Rightarrow> process" where
  \<comment> \<open>the process after the listener has finished with the request\<close>
  "proceed rt mode ev req p =
     (case p of
        Exited \<Rightarrow> Exited
      | Running st \<Rightarrow>
          let out = handler rt ev req st
          in if thrown out \<noteq> None \<and> mode = Fatal then Exited else Running (store_of out))"

definition answer_status :: "wire option \<Rightarrow> nat option" where
  "answer_status a = map_option w_status a"

definition answer_body :: "wire option \<Rightarrow> payload option" where
  "answer_body a = (case a of None \<Rightarrow> None | Some w \<Rightarrow> w_body w)"

subsection \<open>A runtime for concrete requests\<close>

text \<open>
  To run the listener on a concrete request the runtime has to be concrete too.
  \<open>sample_runtime\<close> has integers for Numbers and parses the request bodies used
  below as \<open>JSON.parse\<close> does; every other text is rejected. The byte length of a
  payload is not computed.
\<close>

definition dq :: char where
  "dq = CHR 0x22"

definition body_title_X :: string where
  \<comment> \<open>\<open>{"title":"X"}\<close>\<close>
  "body_title_X = ''{'' @ [dq] @ ''title'' @ [dq] @ '':'' @ [dq] @ ''X'' @ [dq] @ ''}''"

definition body_new_book :: string where
  \<comment> \<open>\<open>{"title":"New Book","author":"Anon"}\<close>\<close>
  "body_new_book =
     ''{'' @ [dq] @ ''title'' @ [dq] @ '':'' @ [dq] @ ''New Book'' @ [dq] @ '',''
       @ [dq] @ ''author'' @ [dq] @ '':'' @ [dq] @ ''Anon'' @ [dq] @ ''}''"

definition body_empty_title :: string where
  \<comment> \<open>\<open>{"title":"","author":"Anon"}\<close>\<close>
  "body_empty_title =
     ''{'' @ [dq] @ ''title'' @ [dq] @ '':'' @ [dq] @ [dq] @ '',''
       @ [dq] @ ''author'' @ [dq] @ '':'' @ [dq] @ ''Anon'' @ [dq] @ ''}''"

definition body_title_object :: string where
  \<comment> \<open>\<open>{"title":{"toString":1}}\<close>\<close>
  "body_title_object =
     ''{'' @ [dq] @ ''title'' @ [dq] @ '':{'' @ [dq] @ ''toString'' @ [dq] @ '':1}}''"

definition body_title_only :: string where
  \<comment> \<open>\<open>{"title":"Only"}\<close>\<close>
  "body_title_only = ''{'' @ [dq] @ ''title'' @ [dq] @ '':'' @ [dq] @ ''Only'' @ [dq] @ ''}''"

definition sample_parse :: "string \<Rightarrow> int jsval option" where
  "sample_parse raw =
     (if raw = body_title_X then Some (JObj [(''title'', JStr ''X'')])
      else if raw = body_new_book
        then Some (JObj [(''title'', JStr ''New Book''), (''author'', JStr ''Anon'')])
      else if raw = body_empty_title
        then Some (JObj [(''title'', JStr []), (''author'', JStr ''Anon'')])
      else if raw = body_title_object
        then Some (JObj [(''title'', JObj [(''toString'', JNum 1)])])
      else if raw = body_title_only then Some (JObj [(''title'', JStr ''Only'')])
      else None)"

definition sample_runtime :: "int runtime" where
  "sample_runtime =
     \<lparr>JSON_parse = sample_parse,
      Number_ToBoolean = (\<lambda>n. n \<noteq> 0),
      Number_toString = show_int,
      toLowerCase = map ascii_lower,
      byteLength_stringify = (\<lambda>p. 0)\<rparr>"

definition sample_env :: env where
  "sample_env = \<lparr>now_start = 1000, now_end = 1002, random_hex = ''0123456789abcdef01234567''\<rparr>"

definition bearer_ok :: "string option" where
  "bearer_ok = Some ''Bearer secret-token-123''"

definition mk_request :: "string \<Rightarrow> string \<Rightarrow> (string \<times> string) list \<Rightarrow> string option \<Rightarrow> string \<Rightarrow> request" where
  "mk_request m p q a b =
     \<lparr>req_method = m, pathname = p, searchParams = q, authorization = a, cookie = None,
      body_stream = StreamEnd b\<rparr>"

section \<open>Exact Numbers\<close>

lemma round53_exact:
  assumes "\<bar>i\<bar> < 2 ^ 53"
  shows "round53 i = Fin i"
proof -
  from assms have "nat \<bar>i\<bar> < 2 ^ 53"
    by simp
  then show ?thesis
    unfolding round53_def Let_def by (simp only: if_True)
qed

lemma round53_not_NaN: "round53 i \<noteq> NaN"
proof -
  have "(if c then Fin a else if d then (if n then NInf else PInf) else Fin b) \<noteq> NaN"
    for c d n and a b :: int
    by simp
  then show ?thesis
    unfolding round53_def Let_def .
qed

section \<open>Basic facts about the response object and the listener\<close>

definition writable :: "res \<Rightarrow> bool" where
  \<comment> \<open>nothing has been written and the connection stands\<close>
  "writable r = (flushed r = None \<and> \<not> destroyed r)"

lemma writable_headers [simp]: "writable (r\<lparr>headers := h\<rparr>) = writable r"
  by (simp add: writable_def)

lemma setHeader_open:
  "writable r \<Longrightarrow> setHeader n v r = Inr (r\<lparr>headers := put_header n v (headers r)\<rparr>)"
  by (simp add: setHeader_def writable_def)

lemma setHeader_closed: "flushed r = Some w \<Longrightarrow> setHeader n v r = Inl ERR_HTTP_HEADERS_SENT"
  by (simp add: setHeader_def)

lemma names_put_header: "fst ` set (put_header n v hs) = insert n (fst ` set hs)"
  by (induction n v hs rule: put_header.induct) (auto simp: image_iff)

definition cors_headers :: "(string \<times> string) list" where
  "cors_headers =
     [(''Access-Control-Allow-Origin'', ''*''),
      (''Access-Control-Allow-Methods'', ''GET,POST,PUT,PATCH,DELETE,OPTIONS''),
      (''Access-Control-Allow-Headers'', ''Content-Type,Authorization'')]"

definition cors_res :: res where
  "cors_res = \<lparr>statusCode = 200, headers = cors_headers, flushed = None, destroyed = False\<rparr>"

lemma cors_new_res: "cors new_res = Inr cors_res"
  by (simp add: cors_def new_res_def cors_res_def cors_headers_def setHeader_def)

lemma writable_cors_res: "writable cors_res"
  by (simp add: cors_res_def writable_def)

definition json_headers ::
  "'n runtime \<Rightarrow> payload \<Rightarrow> (string \<times> string) list \<Rightarrow> (string \<times> string) list" where
  "json_headers rt p hs =
     put_header ''Content-Length'' (show_nat (byteLength_stringify rt p))
       (put_header ''Content-Type'' ''application/json; charset=utf-8'' hs)"

lemma respond_open:
  "writable r \<Longrightarrow>
   respond rt s p st r =
     \<lparr>thrown = None, store_of = st,
      res_of = \<lparr>statusCode = s, headers = json_headers rt p (headers r),
                flushed = Some \<lparr>w_status = s, w_headers = json_headers rt p (headers r),
                                w_body = Some p\<rparr>,
                destroyed = False\<rparr>\<rparr>"
  by (simp add: respond_def sendJSON_def setHeader_def res_end_def json_headers_def writable_def)

lemma respond_destroyed:
  "flushed r = None \<Longrightarrow> destroyed r \<Longrightarrow>
   respond rt s p st r =
     \<lparr>thrown = None, store_of = st,
      res_of = r\<lparr>headers := json_headers rt p (headers r), statusCode := s\<rparr>\<rparr>"
  by (simp add: respond_def sendJSON_def setHeader_def res_end_def json_headers_def)

text \<open>
  A stretch of the listener is settled when it either returned after ending the
  response, or threw before ending it; the response is destroyed exactly when what
  it threw is the failure of the request stream. Every route is.
\<close>

definition settled :: "outcome \<Rightarrow> bool" where
  "settled out =
     (case thrown out of
        None \<Rightarrow> flushed (res_of out) \<noteq> None
      | Some e \<Rightarrow>
          flushed (res_of out) = None \<and> (destroyed (res_of out) \<longleftrightarrow> e = StreamFailure))"

lemma settled_respond: "writable r \<Longrightarrow> settled (respond rt s p st r)"
  by (simp add: respond_open settled_def)

lemma settled_throw: "writable r \<Longrightarrow> e \<noteq> StreamFailure \<Longrightarrow> settled (throw e st r)"
  by (simp add: throw_def settled_def writable_def)

lemma settled_stream_failure:
  "writable r \<Longrightarrow> settled (throw StreamFailure st (r\<lparr>destroyed := True\<rparr>))"
  by (simp add: throw_def settled_def writable_def)

lemma readBody_Inl: "readBody rt bs = Inl e \<Longrightarrow> e = StreamFailure \<and> bs = StreamError"
  by (simp add: readBody_def split: body_stream.splits)

lemma settled_create: "writable r \<Longrightarrow> settled (create_book rt ev req st r)"
  by (auto simp: create_book_def setHeader_open Let_def settled_respond settled_throw
      settled_stream_failure dest!: readBody_Inl split: option.splits sum.splits)

lemma settled_replace: "writable r \<Longrightarrow> settled (replace_book rt req i st r)"
  by (auto simp: replace_book_def Let_def settled_respond settled_throw
      settled_stream_failure dest!: readBody_Inl split: option.splits sum.splits)

lemma settled_update: "writable r \<Longrightarrow> settled (update_book rt req i st r)"
  by (auto simp: update_book_def Let_def settled_respond settled_throw
      settled_stream_failure dest!: readBody_Inl split: option.splits sum.splits)

lemma settled_try_block: "writable r \<Longrightarrow> settled (try_block rt ev req st r)"
  by (auto simp: try_block_def list_books_def get_book_def unauthorized_def delete_book_def
      setHeader_open settled_respond settled_create settled_replace settled_update
      split: option.splits)

text \<open>
  Outside the preflight branch the listener is the \<open>try\<close> block, the \<open>catch\<close> and
  the \<open>finally\<close>. Unless the request stream failed, the response has been ended by
  then, so the \<open>setHeader\<close> of the \<open>finally\<close> throws: the client receives what the
  route (or the \<open>catch\<close>) sent, and the listener's promise is rejected.
\<close>

lemma handler_returned:
  assumes "req_method req \<noteq> ''OPTIONS''"
    and "thrown (try_block rt ev req st cors_res) = None"
  shows "handler rt ev req st =
           (try_block rt ev req st cors_res)\<lparr>thrown := Some ERR_HTTP_HEADERS_SENT\<rparr>"
proof -
  have "settled (try_block rt ev req st cors_res)"
    by (rule settled_try_block) (rule writable_cors_res)
  with assms(2) obtain w where "flushed (res_of (try_block rt ev req st cors_res)) = Some w"
    by (auto simp: settled_def)
  with assms show ?thesis
    by (simp add: handler_def cors_new_res Let_def setHeader_closed)
qed

lemma handler_caught:
  assumes "req_method req \<noteq> ''OPTIONS''"
    and "thrown (try_block rt ev req st cors_res) = Some e" and "e \<noteq> StreamFailure"
  shows "handler rt ev req st =
           (respond rt 500 (ErrorPayload ''Internal Server Error'')
              (store_of (try_block rt ev req st cors_res))
              (res_of (try_block rt ev req st cors_res)))\<lparr>thrown := Some ERR_HTTP_HEADERS_SENT\<rparr>"
    and "writable (res_of (try_block rt ev req st cors_res))"
proof -
  have "settled (try_block rt ev req st cors_res)"
    by (rule settled_try_block) (rule writable_cors_res)
  with assms(2,3) show unflushed: "writable (res_of (try_block rt ev req st cors_res))"
    by (simp add: settled_def writable_def)
  show "handler rt ev req st =
           (respond rt 500 (ErrorPayload ''Internal Server Error'')
              (store_of (try_block rt ev req st cors_res))
              (res_of (try_block rt ev req st cors_res)))\<lparr>thrown := Some ERR_HTTP_HEADERS_SENT\<rparr>"
    using assms(1,2)
    by (simp add: handler_def cors_new_res Let_def respond_open [OF unflushed] setHeader_closed)
qed

text \<open>
  When the request stream failed, the \<open>catch\<close> writes nothing to the destroyed
  response, the \<open>finally\<close> sets its header without an exception, and the listener
  returns: nothing reaches the client.
\<close>

lemma handler_stream_failed:
  assumes "req_method req \<noteq> ''OPTIONS''"
    and "thrown (try_block rt ev req st cors_res) = Some StreamFailure"
  shows "thrown (handler rt ev req st) = None"
    and "flushed (res_of (handler rt ev req st)) = None"
    and "store_of (handler rt ev req st) = store_of (try_block rt ev req st cors_res)"
proof -
  let ?t = "try_block rt ev req st cors_res"
  have "settled ?t"
    by (rule settled_try_block) (rule writable_cors_res)
  with assms(2) have gone: "flushed (res_of ?t) = None" "destroyed (res_of ?t)"
    by (simp_all add: settled_def)
  show "thrown (handler rt ev req st) = None"
    and "flushed (res_of (handler rt ev req st)) = None"
    and "store_of (handler rt ev req st) = store_of ?t"
    using assms gone
    by (simp_all add: handler_def cors_new_res Let_def respond_destroyed [OF gone] setHeader_def)
qed

lemma handler_options:
  "req_method req = ''OPTIONS'' \<Longrightarrow>
   handler rt ev req st =
     \<lparr>thrown = None, store_of = st,
      res_of = \<lparr>statusCode = 204, headers = cors_headers,
                flushed = Some \<lparr>w_status = 204, w_headers = cors_headers, w_body = None\<rparr>,
                destroyed = False\<rparr>\<rparr>"
  by (simp add: handler_def cors_new_res res_end_def cors_res_def)

lemma sent_returned:
  assumes "req_method req \<noteq> ''OPTIONS''"
    and "try_block rt ev req st cors_res = respond rt s p st' cors_res"
  shows "sent (handler rt ev req st) =
           Some \<lparr>w_status = s, w_headers = json_headers rt p cors_headers, w_body = Some p\<rparr>"
    and "store_of (handler rt ev req st) = st'"
proof -
  have r: "respond rt s p st' cors_res =
             \<lparr>thrown = None, store_of = st',
              res_of = \<lparr>statusCode = s, headers = json_headers rt p (headers cors_res),
                        flushed = Some \<lparr>w_status = s,
                                        w_headers = json_headers rt p (headers cors_res),
                                        w_body = Some p\<rparr>,
                        destroyed = False\<rparr>\<rparr>"
    by (rule respond_open [OF writable_cors_res])
  have h: "headers cors_res = cors_headers"
    by (simp add: cors_res_def)
  from assms(2) r have "thrown (try_block rt ev req st cors_res) = None"
    by simp
  from handler_returned [OF assms(1) this] assms(2) r h
  show "sent (handler rt ev req st) =
           Some \<lparr>w_status = s, w_headers = json_headers rt p cors_headers, w_body = Some p\<rparr>"
    and "store_of (handler rt ev req st) = st'"
    by (simp_all add: sent_def)
qed

lemma store_of_respond: "store_of (respond rt s p st r) = st"
  by (simp add: respond_def split: sum.splits)

lemma store_of_throw: "store_of (throw e st r) = st"
  by (simp add: throw_def)

lemma store_of_handler:
  "store_of (handler rt ev req st)
     = (if req_method req = ''OPTIONS'' then st else store_of (try_block rt ev req st cors_res))"
proof (cases "req_method req = ''OPTIONS''")
  case True
  then show ?thesis by (simp add: handler_options)
next
  case False
  show ?thesis
  proof (cases "thrown (try_block rt ev req st cors_res)")
    case None
    with False show ?thesis by (simp add: handler_returned)
  next
    case (Some e)
    show ?thesis
    proof (cases "e = StreamFailure")
      case True
      with False Some show ?thesis
        by (simp add: handler_stream_failed(3))
    next
      case other: False
      from handler_caught [OF False Some other] False show ?thesis
        by (simp add: respond_open)
    qed
  qed
qed

lemma starts_with_books: "prefix ''/books'' p \<longleftrightarrow> take 6 p = ''/books''"
proof
  assume "prefix ''/books'' p"
  then show "take 6 p = ''/books''"
    by (auto simp: prefix_def)
next
  assume "take 6 p = ''/books''"
  then have "p = ''/books'' @ drop 6 p"
    by (metis append_take_drop_id)
  then show "prefix ''/books'' p"
    by (metis prefixI)
qed

text \<open>
  A request whose body stream ends never makes a route throw the failure of the
  stream.
\<close>

lemma no_stream_failure:
  assumes "body_stream req = StreamEnd raw" and "writable r"
  shows "thrown (try_block rt ev req st r) \<noteq> Some StreamFailure"
proof -
  have "\<exists>v. readBody rt (body_stream req) = Inr v"
    using assms(1) by (simp add: readBody_def)
  then obtain v where v: "readBody rt (body_stream req) = Inr v"
    by (elim exE)
  have "settled (try_block rt ev req st r)"
    by (rule settled_try_block [OF assms(2)])
  moreover have "\<not> destroyed (res_of (try_block rt ev req st r))"
    using assms(2) v
    by (auto simp: try_block_def list_books_def get_book_def unauthorized_def delete_book_def
        create_book_def replace_book_def update_book_def Let_def
        setHeader_open respond_open throw_def writable_def
        split: option.splits sum.splits)
  ultimately show ?thesis
    by (auto simp: settled_def split: option.splits)
qed


section \<open>The preflight answer and the timing header\<close>

text \<open>
  Claim C1 says that every response carries the header \<open>X-Response-Time-ms\<close>, the
  preflight answer included. The listener answers a preflight request and returns
  before it enters the \<open>try\<close>, so the \<open>finally\<close> that sets the header never runs for
  it: the answer is status 204 with the three CORS headers and nothing else.
\<close>

theorem preflight_without_timing_header:
  assumes "req_method req = ''OPTIONS''"
  shows "sent (handler rt ev req st)
           = Some \<lparr>w_status = 204, w_headers = cors_headers, w_body = None\<rparr>
         \<and> ''X-Response-Time-ms'' \<notin> header_names (handler rt ev req st)
         \<and> thrown (handler rt ev req st) = None
         \<and> store_of (handler rt ev req st) = st"
  using assms
  by (simp add: handler_options sent_def header_names_def cors_headers_def)

theorem preflight_without_timing_header_witness:
  "''X-Response-Time-ms'' \<notin> header_names
      (handler sample_runtime sample_env (mk_request ''OPTIONS'' ''/books'' [] None []) init_store)
   \<and> status_of (handler sample_runtime sample_env (mk_request ''OPTIONS'' ''/books'' [] None []) init_store)
       = Some 204"
  using preflight_without_timing_header
    [of "mk_request ''OPTIONS'' ''/books'' [] None []" sample_runtime sample_env init_store]
  by (simp add: mk_request_def status_of_def)

text \<open>
  On every other path the header is set only in the \<open>finally\<close>, after the route has
  ended the response: no response the client receives carries it, and, whenever the
  request stream ended, the listener's promise is rejected with
  \<open>ERR_HTTP_HEADERS_SENT\<close>.
\<close>

lemma listener_rejects:
  assumes "req_method req \<noteq> ''OPTIONS''" and "body_stream req = StreamEnd raw"
  shows "thrown (handler rt ev req st) = Some ERR_HTTP_HEADERS_SENT"
proof (cases "thrown (try_block rt ev req st cors_res)")
  case None
  with assms(1) show ?thesis by (simp add: handler_returned)
next
  case (Some e)
  with no_stream_failure [OF assms(2) writable_cors_res, of rt ev st]
  have "e \<noteq> StreamFailure"
    by auto
  from handler_caught(1) [OF assms(1) Some this] show ?thesis
    by simp
qed

definition route_header_names :: "string set" where
  "route_header_names =
     {''Access-Control-Allow-Origin'', ''Access-Control-Allow-Methods'',
      ''Access-Control-Allow-Headers'', ''Content-Type'', ''Content-Length'',
      ''X-Server-Note'', ''WWW-Authenticate'', ''Set-Cookie''}"

definition names_within :: "res \<Rightarrow> bool" where
  "names_within r =
     (fst ` set (headers r) \<subseteq> route_header_names
      \<and> (case flushed r of None \<Rightarrow> True | Some w \<Rightarrow> fst ` set (w_headers w) \<subseteq> route_header_names))"

lemma names_within_respond:
  "writable r \<Longrightarrow> names_within r \<Longrightarrow> names_within (res_of (respond rt s p st r))"
  by (simp add: respond_open names_within_def json_headers_def names_put_header
      route_header_names_def)

lemma names_within_throw: "names_within r \<Longrightarrow> names_within (res_of (throw e st r))"
  by (simp add: throw_def)

lemma names_within_destroyed [simp]: "names_within (r\<lparr>destroyed := d\<rparr>) = names_within r"
  by (simp add: names_within_def)

lemma names_within_status [simp]: "names_within (r\<lparr>statusCode := c\<rparr>) = names_within r"
  by (simp add: names_within_def)

lemma names_within_put:
  "n \<in> route_header_names \<Longrightarrow> names_within r \<Longrightarrow>
   names_within (r\<lparr>headers := put_header n v (headers r)\<rparr>)"
  by (simp add: names_within_def names_put_header)

lemma names_within_try_block:
  "writable r \<Longrightarrow> names_within r \<Longrightarrow> names_within (res_of (try_block rt ev req st r))"
  by (auto simp: try_block_def list_books_def get_book_def unauthorized_def create_book_def
      replace_book_def update_book_def delete_book_def setHeader_open Let_def
      names_within_respond names_within_throw names_within_put route_header_names_def
      split: option.splits sum.splits)

lemma names_within_cors_res: "names_within cors_res"
  by (simp add: names_within_def cors_res_def cors_headers_def route_header_names_def)

lemma timing_header_never_sent:
  "''X-Response-Time-ms'' \<notin> header_names (handler rt ev req st)"
proof (cases "req_method req = ''OPTIONS''")
  case True
  then show ?thesis
    by (simp add: handler_options header_names_def sent_def cors_headers_def)
next
  case False
  let ?t = "try_block rt ev req st cors_res"
  have nt: "names_within (res_of ?t)"
    by (rule names_within_try_block [OF writable_cors_res names_within_cors_res])
  have st: "settled ?t"
    by (rule settled_try_block [OF writable_cors_res])
  show ?thesis
  proof (cases "thrown ?t")
    case None
    with False nt have "names_within (res_of (handler rt ev req st))"
      by (simp add: handler_returned)
    then show ?thesis
      by (auto simp: names_within_def header_names_def sent_def route_header_names_def
          split: option.splits)
  next
    case (Some e)
    show ?thesis
    proof (cases "e = StreamFailure")
      case True
      with False Some handler_stream_failed(2) [of req rt ev st] show ?thesis
        by (simp add: header_names_def sent_def)
    next
      case other: False
      note c = handler_caught [OF False Some other]
      from c nt have "names_within (res_of (handler rt ev req st))"
        by (simp add: names_within_respond)
      then show ?thesis
        by (auto simp: names_within_def header_names_def sent_def route_header_names_def
            split: option.splits)
    qed
  qed
qed

section \<open>The authorization check\<close>

lemma try_block_unauthorized:
  assumes "req_method req \<in> {''POST'', ''PUT'', ''PATCH'', ''DELETE''}"
    and "prefix ''/books'' (pathname req)"
    and "token_of req \<noteq> Some DEMO_BEARER"
    and "writable r"
  shows "try_block rt ev req st r = unauthorized rt st r"
proof -
  from assms(1) have "req_method req \<noteq> ''GET''"
    by auto
  with assms show ?thesis
    by (simp add: try_block_def starts_with_books)
qed

definition www_authenticate :: string where
  "www_authenticate = ''Bearer realm='' @ [CHR 0x22] @ ''simple-demo'' @ [CHR 0x22]"

lemma unauthorized_open:
  "writable r \<Longrightarrow>
   unauthorized rt st r =
     respond rt 401 (ErrorPayload ''Unauthorized - invalid or missing bearer token'') st
       (r\<lparr>headers := put_header ''WWW-Authenticate'' www_authenticate (headers r)\<rparr>)"
  by (simp add: unauthorized_def setHeader_open www_authenticate_def)

lemma token_of_no_header: "authorization req = None \<Longrightarrow> token_of req = None"
  by (simp add: token_of_def matchBearer_def)

text \<open>
  The token the header yields is the secret exactly when the header is the word
  \<open>Bearer\<close> in any letter case, then white space, then the secret.
\<close>

lemma bearer_try_Some:
  "bearer_try rest n = Some t \<Longrightarrow> \<exists>k. 0 < k \<and> k \<le> n \<and> t = drop k rest \<and> t \<noteq> []"
proof (induction n)
  case 0
  then show ?case by simp
next
  case (Suc n)
  show ?case
  proof (cases "drop (Suc n) rest \<noteq> [] \<and> list_all (\<lambda>c. \<not> is_line_terminator c) (drop (Suc n) rest)")
    case True
    with Suc.prems have "t = drop (Suc n) rest"
      by (simp add: Let_def)
    with True show ?thesis
      by (intro exI [of _ "Suc n"]) simp
  next
    case False
    with Suc.prems have "bearer_try rest n = Some t"
      by (auto simp: Let_def)
    from Suc.IH [OF this] show ?thesis
      by (auto intro: le_SucI)
  qed
qed

lemma bearer_try_greedy:
  "0 < n \<Longrightarrow> drop n rest \<noteq> [] \<Longrightarrow> list_all (\<lambda>c. \<not> is_line_terminator c) (drop n rest) \<Longrightarrow>
   bearer_try rest n = Some (drop n rest)"
  by (cases n) (simp_all add: Let_def)

lemma leading_spaces:
  assumes "list_all is_space ws" and "ys \<noteq> []" and "\<not> is_space (hd ys)"
  shows "takeWhile is_space (ws @ ys) = ws"
proof -
  from assms(2,3) have "takeWhile is_space ys = []"
    by (cases ys) simp_all
  with assms(1) show ?thesis
    by (simp add: takeWhile_append2 list_all_iff)
qed

lemma secret_shape:
  "DEMO_BEARER \<noteq> []" "\<not> is_space (hd DEMO_BEARER)"
  "list_all (\<lambda>c. \<not> is_line_terminator c) DEMO_BEARER"
  by (simp_all add: DEMO_BEARER_def is_space_def is_line_terminator_def)

lemma token_accepted_iff:
  "matchBearer a = Some DEMO_BEARER \<longleftrightarrow>
     map ascii_lower (take 6 a) = ''bearer''
     \<and> (\<exists>ws. ws \<noteq> [] \<and> list_all is_space ws \<and> drop 6 a = ws @ DEMO_BEARER)"
proof
  assume "map ascii_lower (take 6 a) = ''bearer''
          \<and> (\<exists>ws. ws \<noteq> [] \<and> list_all is_space ws \<and> drop 6 a = ws @ DEMO_BEARER)"
  then obtain ws where b: "map ascii_lower (take 6 a) = ''bearer''"
    and ws: "ws \<noteq> []" "list_all is_space ws" and rest: "drop 6 a = ws @ DEMO_BEARER"
    by (elim conjE exE) (rule that; assumption)
  have n: "takeWhile is_space (drop 6 a) = ws"
    unfolding rest by (rule leading_spaces [OF ws(2) secret_shape(1,2)])
  have "bearer_try (drop 6 a) (length ws) = Some (drop (length ws) (drop 6 a))"
    using ws(1) secret_shape(1,3) by (intro bearer_try_greedy) (simp_all add: rest)
  with b n rest show "matchBearer a = Some DEMO_BEARER"
    by (simp add: matchBearer_def)
next
  assume m: "matchBearer a = Some DEMO_BEARER"
  then have b: "map ascii_lower (take 6 a) = ''bearer''"
    by (simp add: matchBearer_def split: if_splits)
  with m have "bearer_try (drop 6 a) (length (takeWhile is_space (drop 6 a))) = Some DEMO_BEARER"
    by (simp add: matchBearer_def)
  from bearer_try_Some [OF this] obtain k
    where k: "0 < k" "k \<le> length (takeWhile is_space (drop 6 a))"
      and t: "DEMO_BEARER = drop k (drop 6 a)"
    by (elim conjE exE) (rule that; assumption)
  let ?rest = "drop 6 a"
  have "take k ?rest = take k (takeWhile is_space ?rest @ dropWhile is_space ?rest)"
    by simp
  also have "\<dots> = take k (takeWhile is_space ?rest)"
    using k(2) by (simp del: takeWhile_dropWhile_id)
  finally have tk: "take k ?rest = take k (takeWhile is_space ?rest)" .
  have "set (take k (takeWhile is_space ?rest)) \<subseteq> set (takeWhile is_space ?rest)"
    by (rule set_take_subset)
  then have sp: "list_all is_space (take k ?rest)"
    unfolding tk by (auto simp: list_all_iff dest: set_takeWhileD)
  have "length (takeWhile is_space ?rest) \<le> length ?rest"
    by (rule length_takeWhile_le)
  with k have ne: "take k ?rest \<noteq> []"
    by auto
  have "?rest = take k ?rest @ DEMO_BEARER"
    unfolding t by (rule append_take_drop_id [symmetric])
  with sp ne
  have "\<exists>ws. ws \<noteq> [] \<and> list_all is_space ws \<and> drop 6 a = ws @ DEMO_BEARER"
    by (intro exI [of _ "take k ?rest"] conjI)
  with b
  show "map ascii_lower (take 6 a) = ''bearer''
        \<and> (\<exists>ws. ws \<noteq> [] \<and> list_all is_space ws \<and> drop 6 a = ws @ DEMO_BEARER)"
    by (rule conjI)
qed

text \<open>
  Claim C3: a request with method POST, PUT, PATCH or DELETE on a path that begins with
  \<open>/books\<close>, whose Authorization header is missing or whose bearer token is not the
  shared secret, is answered with 401 and a \<open>WWW-Authenticate\<close> header, whatever its
  body is (the body is never read), and the store is left as it was.
\<close>

theorem bad_token_is_rejected:
  assumes "req_method req \<in> {''POST'', ''PUT'', ''PATCH'', ''DELETE''}"
    and "prefix ''/books'' (pathname req)"
    and "authorization req = None \<or> token_of req \<noteq> Some DEMO_BEARER"
  shows "status_of (handler rt ev req st) = Some 401
         \<and> ''WWW-Authenticate'' \<in> header_names (handler rt ev req st)
         \<and> body_of (handler rt ev req st)
             = Some (ErrorPayload ''Unauthorized - invalid or missing bearer token'')
         \<and> store_of (handler rt ev req st) = st"
proof -
  from assms(3) have tok: "token_of req \<noteq> Some DEMO_BEARER"
    by (auto simp: token_of_no_header)
  from assms(1) have m: "req_method req \<noteq> ''OPTIONS''"
    by auto
  have t: "try_block rt ev req st cors_res =
             respond rt 401 (ErrorPayload ''Unauthorized - invalid or missing bearer token'') st
               (cors_res\<lparr>headers := put_header ''WWW-Authenticate'' www_authenticate (headers cors_res)\<rparr>)"
    using try_block_unauthorized [OF assms(1,2) tok writable_cors_res]
    by (simp add: unauthorized_open writable_cors_res)
  have h: "handler rt ev req st = (try_block rt ev req st cors_res)\<lparr>thrown := Some ERR_HTTP_HEADERS_SENT\<rparr>"
    by (rule handler_returned [OF m]) (simp add: t respond_open writable_cors_res)
  show ?thesis
    by (simp add: h t respond_open writable_cors_res status_of_def sent_def body_of_def
        header_names_def json_headers_def names_put_header)
qed

definition unauthorized_request :: request where
  "unauthorized_request = mk_request ''POST'' ''/books'' [] (Some ''Bearer wrong-token'') body_title_X"

theorem bad_token_is_rejected_witness:
  "token_of unauthorized_request = Some ''wrong-token''
   \<and> readBody sample_runtime (body_stream unauthorized_request) = Inr (JObj [(''title'', JStr ''X'')])
   \<and> status_of (handler sample_runtime sample_env unauthorized_request init_store) = Some 401
   \<and> ''WWW-Authenticate'' \<in> header_names (handler sample_runtime sample_env unauthorized_request init_store)
   \<and> store_of (handler sample_runtime sample_env unauthorized_request init_store) = init_store"
proof -
  have tok: "token_of unauthorized_request = Some ''wrong-token''"
    by (simp add: token_of_def unauthorized_request_def mk_request_def matchBearer_def
        ascii_lower_def is_space_def is_line_terminator_def char_of_def bit_iff_odd)
  have body: "readBody sample_runtime (body_stream unauthorized_request) = Inr (JObj [(''title'', JStr ''X'')])"
    by (simp add: unauthorized_request_def mk_request_def readBody_def sample_runtime_def
        sample_parse_def body_title_X_def)
  have m: "req_method unauthorized_request \<in> {''POST'', ''PUT'', ''PATCH'', ''DELETE''}"
    and p: "prefix ''/books'' (pathname unauthorized_request)"
    by (simp_all add: unauthorized_request_def mk_request_def)
  have a: "authorization unauthorized_request = None \<or> token_of unauthorized_request \<noteq> Some DEMO_BEARER"
    by (simp add: tok DEMO_BEARER_def)
  from bad_token_is_rejected [OF m p a, of sample_runtime sample_env init_store] tok body
  show ?thesis
    by simp
qed

section \<open>Dispatch\<close>

text \<open>
  Which route a request reaches: the listing and the single-book read are matched
  before the authorization check, the four changing routes after it.
\<close>

lemma path_id_not_collection: "path_id p = Some i \<Longrightarrow> p \<noteq> ''/books''"
  by (auto simp: path_id_def bookMatch_def)

lemma path_id_starts_with: "path_id p = Some i \<Longrightarrow> take 6 p = ''/books''"
proof -
  assume "path_id p = Some i"
  then have "take 7 p = ''/books/''"
    by (auto simp: path_id_def bookMatch_def split: if_splits)
  then have "take 6 (take 7 p) = ''/books''"
    by simp
  then show ?thesis
    by simp
qed

lemma try_block_create:
  assumes "req_method req = ''POST''" and "pathname req = ''/books''"
    and "token_of req = Some DEMO_BEARER"
  shows "try_block rt ev req st r = create_book rt ev req st r"
  using assms by (simp add: try_block_def)

lemma try_block_replace:
  assumes "req_method req = ''PUT''" and "path_id (pathname req) = Some i"
    and "token_of req = Some DEMO_BEARER"
  shows "try_block rt ev req st r = replace_book rt req i st r"
  using assms by (simp add: try_block_def)

lemma try_block_update:
  assumes "req_method req = ''PATCH''" and "path_id (pathname req) = Some i"
    and "token_of req = Some DEMO_BEARER"
  shows "try_block rt ev req st r = update_book rt req i st r"
  using assms by (simp add: try_block_def)

lemma try_block_delete:
  assumes "req_method req = ''DELETE''" and "path_id (pathname req) = Some i"
    and "token_of req = Some DEMO_BEARER"
  shows "try_block rt ev req st r = delete_book rt i st r"
  using assms by (simp add: try_block_def)

lemma try_block_list:
  assumes "req_method req = ''GET''" and "pathname req = ''/books''"
  shows "try_block rt ev req st r = list_books rt req st r"
  using assms by (simp add: try_block_def)

lemma try_block_get:
  assumes "req_method req = ''GET''" and "path_id (pathname req) = Some i"
  shows "try_block rt ev req st r = get_book rt req i st r"
  using assms path_id_not_collection [OF assms(2)] by (simp add: try_block_def)

lemma missing_fields_lacking:
  "get_prop body ''title'' = None \<or> get_prop body ''author'' = None \<Longrightarrow> missing_fields rt body"
  by (auto simp: missing_fields_def truthy_def)

lemma status_of_returned:
  assumes "req_method req \<noteq> ''OPTIONS''"
    and "try_block rt ev req st cors_res = respond rt s p st' cors_res"
  shows "status_of (handler rt ev req st) = Some s"
    and "body_of (handler rt ev req st) = Some p"
    and "store_of (handler rt ev req st) = st'"
  using sent_returned [OF assms] by (simp_all add: status_of_def body_of_def)

section \<open>Replacing a book\<close>

text \<open>
  Claim C4: a PUT on \<open>/books/:id\<close> with valid authorization whose body has no
  \<open>title\<close> or no \<open>author\<close> is answered with 400, and neither the collection nor the
  counter changes.
\<close>

theorem replace_without_field_rejected:
  assumes "req_method req = ''PUT''"
    and "path_id (pathname req) = Some i"
    and "token_of req = Some DEMO_BEARER"
    and "readBody rt (body_stream req) = Inr body"
    and "get_prop body ''title'' = None \<or> get_prop body ''author'' = None"
  shows "status_of (handler rt ev req st) = Some 400
         \<and> body_of (handler rt ev req st)
             = Some (ErrorPayload ''Missing title or author in request body'')
         \<and> books (store_of (handler rt ev req st)) = books st
         \<and> nextId (store_of (handler rt ev req st)) = nextId st"
proof -
  have m: "req_method req \<noteq> ''OPTIONS''"
    using assms(1) by simp
  have "try_block rt ev req st cors_res =
          respond rt 400 (ErrorPayload ''Missing title or author in request body'') st cors_res"
    using assms(4) missing_fields_lacking [OF assms(5), of rt]
    by (simp add: try_block_replace [OF assms(1,2,3)] replace_book_def)
  from status_of_returned [OF m this] show ?thesis
    by simp
qed

definition put_title_only :: request where
  "put_title_only = mk_request ''PUT'' ''/books/1'' [] bearer_ok body_title_X"

lemma token_of_bearer_ok: "token_of (mk_request m p q bearer_ok b) = Some DEMO_BEARER"
  by (simp add: token_of_def mk_request_def bearer_ok_def matchBearer_def DEMO_BEARER_def
      ascii_lower_def is_space_def is_line_terminator_def char_of_def bit_iff_odd)

lemma path_id_books_1: "path_id ''/books/1'' = Some (Fin 1)"
  by (simp add: path_id_def bookMatch_def is_digit_def Number_digits_def digit_val_def
      round53_exact)

theorem replace_without_field_rejected_witness:
  "readBody sample_runtime (body_stream put_title_only) = Inr (JObj [(''title'', JStr ''X'')])
   \<and> status_of (handler sample_runtime sample_env put_title_only init_store) = Some 400
   \<and> books (store_of (handler sample_runtime sample_env put_title_only init_store)) = books init_store
   \<and> nextId (store_of (handler sample_runtime sample_env put_title_only init_store)) = Fin 4"
proof -
  have b: "readBody sample_runtime (body_stream put_title_only) = Inr (JObj [(''title'', JStr ''X'')])"
    by (simp add: put_title_only_def mk_request_def readBody_def sample_runtime_def
        sample_parse_def body_title_X_def)
  have m: "req_method put_title_only = ''PUT''"
    and p: "path_id (pathname put_title_only) = Some (Fin 1)"
    by (simp_all add: put_title_only_def mk_request_def path_id_books_1)
  have t: "token_of put_title_only = Some DEMO_BEARER"
    by (simp add: put_title_only_def token_of_bearer_ok)
  have l: "get_prop (JObj [(''title'', JStr ''X'')]) ''title'' = None
           \<or> get_prop (JObj [(''title'', JStr ''X'') :: string \<times> int jsval]) ''author'' = None"
    by simp
  from replace_without_field_rejected [OF m p t b l, of sample_env init_store] b
  show ?thesis
    by (simp add: init_store_def)
qed

section \<open>Bodies that are not JSON\<close>

lemma status_of_caught:
  assumes "req_method req \<noteq> ''OPTIONS''"
    and "try_block rt ev req st cors_res = throw TypeError st' cors_res"
  shows "status_of (handler rt ev req st) = Some 500"
    and "body_of (handler rt ev req st) = Some (ErrorPayload ''Internal Server Error'')"
    and "store_of (handler rt ev req st) = st'"
proof -
  from assms(2) have t: "thrown (try_block rt ev req st cors_res) = Some TypeError"
    by (simp add: throw_def)
  from handler_caught(1) [OF assms(1) t] assms(2)
  show "status_of (handler rt ev req st) = Some 500"
    and "body_of (handler rt ev req st) = Some (ErrorPayload ''Internal Server Error'')"
    and "store_of (handler rt ev req st) = st'"
    by (simp_all add: throw_def respond_open [OF writable_cors_res] status_of_def body_of_def
        sent_def)
qed

text \<open>
  The id of a path is never \<open>NaN\<close>, so \<open>===\<close> with it is equality.
\<close>

lemma path_id_not_NaN: "path_id p = Some i \<Longrightarrow> i \<noteq> NaN"
  by (auto simp: path_id_def round53_not_NaN split: option.splits)

lemma path_strict_eq: "path_id p = Some i \<Longrightarrow> strict_eq x i = (x = i)"
  using path_id_not_NaN [of p i] by (auto simp: strict_eq_def)

lemma findIndex_None: "findIndex P xs = None \<longleftrightarrow> (\<forall>x\<in>set xs. \<not> P x)"
  by (induction xs) auto

lemma findIndex_Some:
  "findIndex P xs = Some k \<Longrightarrow> k < length xs \<and> P (xs ! k) \<and> (\<forall>j<k. \<not> P (xs ! j))"
proof (induction xs arbitrary: k)
  case Nil
  then show ?case by simp
next
  case (Cons x xs)
  show ?case
  proof (cases "P x")
    case True
    with Cons.prems show ?thesis by simp
  next
    case False
    with Cons.prems obtain k' where k': "findIndex P xs = Some k'" "k = Suc k'"
      by auto
    from Cons.IH [OF k'(1)] False k'(2) show ?thesis
      by (auto simp: less_Suc_eq_0_disj)
  qed
qed

lemma findIndex_exists: "\<exists>x\<in>set xs. P x \<Longrightarrow> \<exists>k. findIndex P xs = Some k"
  using findIndex_None [of P xs] by (cases "findIndex P xs") auto

lemma create_raw_body:
  assumes "req_method req = ''POST''" and "pathname req = ''/books''"
    and "token_of req = Some DEMO_BEARER"
    and "readBody rt (body_stream req) = Inr (JStr raw)"
  shows "status_of (handler rt ev req st) = Some 400 \<and> store_of (handler rt ev req st) = st"
proof -
  have m: "req_method req \<noteq> ''OPTIONS''"
    using assms(1) by simp
  have "try_block rt ev req st cors_res =
          respond rt 400 (ErrorPayload ''Missing title or author in request body'') st cors_res"
    using assms(4)
    by (simp add: try_block_create [OF assms(1,2,3)] create_book_def missing_fields_lacking)
  from status_of_returned [OF m this] show ?thesis
    by simp
qed

lemma replace_raw_body:
  assumes "req_method req = ''PUT''" and "path_id (pathname req) = Some i"
    and "token_of req = Some DEMO_BEARER"
    and "readBody rt (body_stream req) = Inr (JStr raw)"
  shows "status_of (handler rt ev req st) = Some 400 \<and> store_of (handler rt ev req st) = st"
proof -
  have m: "req_method req \<noteq> ''OPTIONS''"
    using assms(1) by simp
  have "try_block rt ev req st cors_res =
          respond rt 400 (ErrorPayload ''Missing title or author in request body'') st cors_res"
    using assms(4)
    by (simp add: try_block_replace [OF assms(1,2,3)] replace_book_def missing_fields_lacking)
  from status_of_returned [OF m this] show ?thesis
    by simp
qed

lemma update_raw_body:
  assumes "req_method req = ''PATCH''" and "path_id (pathname req) = Some i"
    and "token_of req = Some DEMO_BEARER"
    and "readBody rt (body_stream req) = Inr (JStr raw)" and "raw \<noteq> []"
  shows "status_of (handler rt ev req st)
           = Some (if \<exists>b\<in>set (books st). book_id b = i then 200 else 404)
         \<and> store_of (handler rt ev req st) = st"
proof -
  have m: "req_method req \<noteq> ''OPTIONS''"
    using assms(1) by simp
  show ?thesis
  proof (cases "findIndex (\<lambda>b. book_id b = i) (books st)")
    case None
    then have none: "\<not> (\<exists>b\<in>set (books st). book_id b = i)"
      by (simp add: findIndex_None)
    have "try_block rt ev req st cors_res =
            respond rt 404 (ErrorPayload ''Not found'') st cors_res"
      using assms(4,5) None
      by (simp add: try_block_update [OF assms(1,2,3)] update_book_def
          path_strict_eq [OF assms(2)])
    from status_of_returned [OF m this] none show ?thesis
      by simp
  next
    case (Some idx)
    from findIndex_Some [OF Some] have some: "\<exists>b\<in>set (books st). book_id b = i"
      by (auto intro: nth_mem)
    have "try_block rt ev req st cors_res =
            respond rt 200 (DataPayload (books st ! idx)) st cors_res"
      using assms(4,5) Some
      by (simp add: try_block_update [OF assms(1,2,3)] update_book_def
          path_strict_eq [OF assms(2)])
    from status_of_returned [OF m this] some show ?thesis
      by simp
  qed
qed

lemma readBody_unparseable:
  "body_stream req = StreamEnd raw \<Longrightarrow> raw \<noteq> [] \<Longrightarrow> JSON_parse rt raw = None \<Longrightarrow>
   readBody rt (body_stream req) = Inr (JStr raw)"
  by (simp add: readBody_def)

lemma sample_parse_not_json: "JSON_parse sample_runtime ''not json'' = None"
  by (simp add: sample_runtime_def sample_parse_def body_title_X_def body_new_book_def
      body_empty_title_def body_title_object_def body_title_only_def)

lemma book_1_exists: "\<exists>b\<in>set (books init_store). book_id b = Fin 1"
  by (simp add: init_store_def)

text \<open>
  Claim C2 says that a POST, PUT or PATCH whose body text is not empty and not JSON
  gets the raw text as its body and is answered with 400, a PATCH on an existing id
  in particular. The text is passed through, and POST and PUT do answer 400: a string
  has no \<open>title\<close>. The PATCH route tests only \<open>!body\<close>, and a non-empty string is
  not falsy: on an existing id it changes nothing and answers 200.
\<close>

theorem unparseable_patch_counterexample:
  "JSON_parse sample_runtime ''not json'' = None
   \<and> status_of (handler sample_runtime sample_env
        (mk_request ''PATCH'' ''/books/1'' [] bearer_ok ''not json'') init_store) = Some 200"
proof -
  let ?req = "mk_request ''PATCH'' ''/books/1'' [] bearer_ok ''not json''"
  have m: "req_method ?req = ''PATCH''"
    and p: "path_id (pathname ?req) = Some (Fin 1)"
    and s: "body_stream ?req = StreamEnd ''not json''"
    by (simp_all add: mk_request_def path_id_books_1)
  have b: "readBody sample_runtime (body_stream ?req) = Inr (JStr ''not json'')"
    by (rule readBody_unparseable [OF s _ sample_parse_not_json]) simp
  from update_raw_body [OF m p token_of_bearer_ok b, of sample_env init_store]
    book_1_exists sample_parse_not_json
  show ?thesis
    by simp
qed

text \<open>
  Claim C2 as amended: with valid authorization, a body text that is not empty and that
  \<open>JSON.parse\<close> rejects is passed to the route as a string. POST \<open>/books\<close> and PUT
  \<open>/books/:id\<close> answer 400; PATCH \<open>/books/:id\<close> answers 200 when a book has that id
  and 404 otherwise; the store is unchanged in all three.
\<close>

theorem unparseable_body_passed_through:
  assumes "body_stream req = StreamEnd raw" and "raw \<noteq> []" and "JSON_parse rt raw = None"
    and "token_of req = Some DEMO_BEARER"
  shows "readBody rt (body_stream req) = Inr (JStr raw)
         \<and> (req_method req = ''POST'' \<and> pathname req = ''/books'' \<longrightarrow>
              status_of (handler rt ev req st) = Some 400 \<and> store_of (handler rt ev req st) = st)
         \<and> (req_method req = ''PUT'' \<and> path_id (pathname req) \<noteq> None \<longrightarrow>
              status_of (handler rt ev req st) = Some 400 \<and> store_of (handler rt ev req st) = st)
         \<and> (req_method req = ''PATCH'' \<and> path_id (pathname req) \<noteq> None \<longrightarrow>
              status_of (handler rt ev req st)
                = Some (if \<exists>b\<in>set (books st). book_id b = the (path_id (pathname req))
                        then 200 else 404)
              \<and> store_of (handler rt ev req st) = st)"
proof -
  note b = readBody_unparseable [OF assms(1,2,3)]
  show ?thesis
    using b create_raw_body [OF _ _ assms(4) b, of ev st]
      replace_raw_body [OF _ _ assms(4) b, of _ ev st]
      update_raw_body [OF _ _ assms(4) b assms(2), of _ ev st]
    by auto
qed

definition patch_not_json :: request where
  "patch_not_json = mk_request ''PATCH'' ''/books/1'' [] bearer_ok ''not json''"

theorem unparseable_body_passed_through_witness:
  "readBody sample_runtime (body_stream patch_not_json) = Inr (JStr ''not json'')
   \<and> status_of (handler sample_runtime sample_env patch_not_json init_store) = Some 200
   \<and> store_of (handler sample_runtime sample_env patch_not_json init_store) = init_store"
proof -
  have s: "body_stream patch_not_json = StreamEnd ''not json''"
    and m: "req_method patch_not_json = ''PATCH''"
    and p: "path_id (pathname patch_not_json) = Some (Fin 1)"
    by (simp_all add: patch_not_json_def mk_request_def path_id_books_1)
  have t: "token_of patch_not_json = Some DEMO_BEARER"
    by (simp add: patch_not_json_def token_of_bearer_ok)
  have n: "''not json'' \<noteq> []"
    by simp
  from unparseable_body_passed_through [OF s n sample_parse_not_json t, of sample_env init_store]
    m p book_1_exists
  show ?thesis
    by simp
qed

section \<open>Updating a book in part\<close>

lemma update_title_only:
  assumes "req_method req = ''PATCH''" and "path_id (pathname req) = Some i"
    and "token_of req = Some DEMO_BEARER"
    and "readBody rt (body_stream req) = Inr (JObj kvs)"
    and "findIndex (\<lambda>b. book_id b = i) (books st) = Some idx"
    and "map_of kvs ''title'' = Some v" and "map_of kvs ''author'' = None"
    and "js_String rt v = Some t"
  shows "try_block rt ev req st cors_res =
           respond rt 200 (DataPayload ((books st ! idx)\<lparr>title := t\<rparr>))
             (st\<lparr>books := (books st)[idx := (books st ! idx)\<lparr>title := t\<rparr>]\<rparr>) cors_res"
  using assms(4-8)
  by (simp add: try_block_update [OF assms(1,2,3)] update_book_def path_strict_eq [OF assms(2)])

lemma update_title_throws:
  assumes "req_method req = ''PATCH''" and "path_id (pathname req) = Some i"
    and "token_of req = Some DEMO_BEARER"
    and "readBody rt (body_stream req) = Inr (JObj kvs)"
    and "findIndex (\<lambda>b. book_id b = i) (books st) = Some idx"
    and "map_of kvs ''title'' = Some v"
    and "js_String rt v = None"
  shows "try_block rt ev req st cors_res = throw TypeError st cors_res"
  using assms(4-7)
  by (simp add: try_block_update [OF assms(1,2,3)] update_book_def path_strict_eq [OF assms(2)])

lemma update_frame:
  assumes "req_method req = ''PATCH''" and "path_id (pathname req) = Some i"
    and "token_of req = Some DEMO_BEARER"
    and "readBody rt (body_stream req) = Inr (JObj kvs)"
    and "findIndex (\<lambda>b. book_id b = i) (books st) = Some idx"
  shows "\<exists>b'. store_of (handler rt ev req st) = st\<lparr>books := (books st)[idx := b']\<rparr>
              \<and> book_id b' = book_id (books st ! idx)
              \<and> (map_of kvs ''title'' = None \<longrightarrow> title b' = title (books st ! idx))
              \<and> (map_of kvs ''author'' = None \<longrightarrow> author b' = author (books st ! idx))"
proof -
  have m: "req_method req \<noteq> ''OPTIONS''"
    using assms(1) by simp
  have same: "st = st\<lparr>books := (books st)[idx := books st ! idx]\<rparr>"
    by simp
  have "\<exists>b'. store_of (update_book rt req i st cors_res) = st\<lparr>books := (books st)[idx := b']\<rparr>
              \<and> book_id b' = book_id (books st ! idx)
              \<and> (map_of kvs ''title'' = None \<longrightarrow> title b' = title (books st ! idx))
              \<and> (map_of kvs ''author'' = None \<longrightarrow> author b' = author (books st ! idx))"
  proof (cases "map_of kvs ''title''")
    case None
    show ?thesis
    proof (cases "map_of kvs ''author''")
      case no_author: None
      with None assms(4,5) show ?thesis
        by (intro exI [of _ "books st ! idx"])
           (simp add: update_book_def store_of_respond path_strict_eq [OF assms(2)])
    next
      case (Some av)
      show ?thesis
      proof (cases "js_String rt av")
        case no_string: None
        with None Some assms(4,5) show ?thesis
          by (intro exI [of _ "books st ! idx"])
             (simp add: update_book_def store_of_throw path_strict_eq [OF assms(2)])
      next
        case (Some a)
        with None \<open>map_of kvs ''author'' = Some av\<close> assms(4,5) show ?thesis
          by (intro exI [of _ "(books st ! idx)\<lparr>author := a\<rparr>"])
             (simp add: update_book_def store_of_respond path_strict_eq [OF assms(2)])
      qed
    qed
  next
    case (Some tv)
    show ?thesis
    proof (cases "js_String rt tv")
      case None
      with Some assms(4,5) show ?thesis
        by (intro exI [of _ "books st ! idx"])
           (simp add: update_book_def store_of_throw path_strict_eq [OF assms(2)])
    next
      case title: (Some t)
      show ?thesis
      proof (cases "map_of kvs ''author''")
        case None
        with Some title assms(4,5) show ?thesis
          by (intro exI [of _ "(books st ! idx)\<lparr>title := t\<rparr>"])
             (simp add: update_book_def store_of_respond path_strict_eq [OF assms(2)])
      next
        case author: (Some av)
        show ?thesis
        proof (cases "js_String rt av")
          case None
          with Some title author assms(4,5) show ?thesis
            by (intro exI [of _ "(books st ! idx)\<lparr>title := t\<rparr>"])
               (simp add: update_book_def store_of_throw path_strict_eq [OF assms(2)])
        next
          case (Some a)
          with \<open>map_of kvs ''title'' = Some tv\<close> title author assms(4,5) show ?thesis
            by (intro exI [of _ "(books st ! idx)\<lparr>title := t, author := a\<rparr>"])
               (simp add: update_book_def store_of_respond path_strict_eq [OF assms(2)])
        qed
      qed
    qed
  qed
  with m show ?thesis
    by (simp add: store_of_handler try_block_update [OF assms(1,2,3)])
qed

text \<open>
  Claim C6 says that a PATCH with valid authorization, an existing id and a JSON
  object body that supplies only \<open>title\<close> sets the title to the supplied value,
  converted to a string, and changes nothing else. The conversion can throw: an
  object with an own property \<open>toString\<close> has no string conversion. Then the \<open>catch\<close>
  answers 500 and the title stays as it was.
\<close>

definition patch_title_object :: request where
  "patch_title_object = mk_request ''PATCH'' ''/books/1'' [] bearer_ok body_title_object"

theorem patch_title_counterexample:
  "readBody sample_runtime (body_stream patch_title_object)
     = Inr (JObj [(''title'', JObj [(''toString'', JNum 1)])])
   \<and> status_of (handler sample_runtime sample_env patch_title_object init_store) = Some 500
   \<and> store_of (handler sample_runtime sample_env patch_title_object init_store) = init_store"
proof -
  have m: "req_method patch_title_object = ''PATCH''"
    and p: "path_id (pathname patch_title_object) = Some (Fin 1)"
    by (simp_all add: patch_title_object_def mk_request_def path_id_books_1)
  have b: "readBody sample_runtime (body_stream patch_title_object)
             = Inr (JObj [(''title'', JObj [(''toString'', JNum 1)])])"
    by (simp add: patch_title_object_def mk_request_def readBody_def sample_runtime_def
        sample_parse_def body_title_object_def body_title_X_def body_new_book_def
        body_empty_title_def)
  have t: "token_of patch_title_object = Some DEMO_BEARER"
    by (simp add: patch_title_object_def token_of_bearer_ok)
  have i: "findIndex (\<lambda>b. book_id b = Fin 1) (books init_store) = Some 0"
    by (simp add: init_store_def)
  have mo: "req_method patch_title_object \<noteq> ''OPTIONS''"
    using m by simp
  have k: "map_of [(''title'', JObj [(''toString'', JNum (1::int))])] ''title''
             = Some (JObj [(''toString'', JNum 1)])"
    and js: "js_String sample_runtime (JObj [(''toString'', JNum 1)]) = None"
    by simp_all
  have "try_block sample_runtime sample_env patch_title_object init_store cors_res
          = throw TypeError init_store cors_res"
    by (rule update_title_throws [OF m p t b i k js])
  from status_of_caught [OF mo this] b show ?thesis
    by simp
qed

text \<open>
  Claim C6 as amended: whatever the object supplies, only the first record of that id
  can change, its id stays, its title stays unless the body supplies one and its
  author stays unless the body supplies one; the counter stays. When the body
  supplies only a title and its conversion to a string succeeds, the record gets the
  converted title and the answer is 200 with the changed record. When the conversion
  of the title throws, the answer is 500 and the store is as it was.
\<close>

theorem patch_changes_only_supplied:
  assumes "req_method req = ''PATCH''" and "path_id (pathname req) = Some i"
    and "token_of req = Some DEMO_BEARER"
    and "readBody rt (body_stream req) = Inr (JObj kvs)"
    and "\<exists>b\<in>set (books st). book_id b = i"
  shows "\<exists>idx<length (books st).
           book_id (books st ! idx) = i
           \<and> (\<forall>j<idx. book_id (books st ! j) \<noteq> i)
           \<and> length (books (store_of (handler rt ev req st))) = length (books st)
           \<and> (\<forall>j<length (books st). j \<noteq> idx \<longrightarrow>
                 books (store_of (handler rt ev req st)) ! j = books st ! j)
           \<and> book_id (books (store_of (handler rt ev req st)) ! idx) = i
           \<and> (map_of kvs ''title'' = None \<longrightarrow>
                 title (books (store_of (handler rt ev req st)) ! idx) = title (books st ! idx))
           \<and> (map_of kvs ''author'' = None \<longrightarrow>
                 author (books (store_of (handler rt ev req st)) ! idx) = author (books st ! idx))
           \<and> nextId (store_of (handler rt ev req st)) = nextId st
           \<and> (\<forall>v t. map_of kvs ''title'' = Some v \<and> map_of kvs ''author'' = None
                  \<and> js_String rt v = Some t \<longrightarrow>
                 status_of (handler rt ev req st) = Some 200
                 \<and> body_of (handler rt ev req st)
                     = Some (DataPayload ((books st ! idx)\<lparr>title := t\<rparr>))
                 \<and> title (books (store_of (handler rt ev req st)) ! idx) = t)
           \<and> (\<forall>v. map_of kvs ''title'' = Some v \<and> js_String rt v = None \<longrightarrow>
                 status_of (handler rt ev req st) = Some 500
                 \<and> store_of (handler rt ev req st) = st)"
proof -
  from findIndex_exists [OF assms(5)] obtain idx
    where idx: "findIndex (\<lambda>b. book_id b = i) (books st) = Some idx"
    by blast
  note found = findIndex_Some [OF idx]
  have m: "req_method req \<noteq> ''OPTIONS''"
    using assms(1) by simp
  from update_frame [OF assms(1,2,3,4) idx, of ev] obtain b'
    where after: "store_of (handler rt ev req st) = st\<lparr>books := (books st)[idx := b']\<rparr>"
      and same_id: "book_id b' = book_id (books st ! idx)"
      and same_title: "map_of kvs ''title'' = None \<longrightarrow> title b' = title (books st ! idx)"
      and same_author: "map_of kvs ''author'' = None \<longrightarrow> author b' = author (books st ! idx)"
    by (elim exE conjE) (rule that; assumption)
  have converted: "status_of (handler rt ev req st) = Some 200
                   \<and> body_of (handler rt ev req st)
                       = Some (DataPayload ((books st ! idx)\<lparr>title := t\<rparr>))
                   \<and> title (books (store_of (handler rt ev req st)) ! idx) = t"
    if "map_of kvs ''title'' = Some v \<and> map_of kvs ''author'' = None \<and> js_String rt v = Some t"
    for v t
  proof -
    from that have tv: "map_of kvs ''title'' = Some v" and na: "map_of kvs ''author'' = None"
      and js: "js_String rt v = Some t"
      by simp_all
    from status_of_returned [OF m update_title_only [OF assms(1,2,3,4) idx tv na js, of ev]] found
    show ?thesis
      by simp
  qed
  have failed: "status_of (handler rt ev req st) = Some 500 \<and> store_of (handler rt ev req st) = st"
    if "map_of kvs ''title'' = Some v \<and> js_String rt v = None" for v
  proof -
    from that have tv: "map_of kvs ''title'' = Some v" and js: "js_String rt v = None"
      by simp_all
    from status_of_caught [OF m update_title_throws [OF assms(1,2,3,4) idx tv js, of ev]]
    show ?thesis
      by simp
  qed
  show ?thesis
  proof (intro exI [of _ idx] conjI)
    show "idx < length (books st)" "book_id (books st ! idx) = i"
      "\<forall>j<idx. book_id (books st ! j) \<noteq> i"
      using found by simp_all
    show "length (books (store_of (handler rt ev req st))) = length (books st)"
      "nextId (store_of (handler rt ev req st)) = nextId st"
      "\<forall>j<length (books st). j \<noteq> idx \<longrightarrow>
         books (store_of (handler rt ev req st)) ! j = books st ! j"
      by (simp_all add: after)
    show "book_id (books (store_of (handler rt ev req st)) ! idx) = i"
      "map_of kvs ''title'' = None \<longrightarrow>
         title (books (store_of (handler rt ev req st)) ! idx) = title (books st ! idx)"
      "map_of kvs ''author'' = None \<longrightarrow>
         author (books (store_of (handler rt ev req st)) ! idx) = author (books st ! idx)"
      using found same_id same_title same_author by (simp_all add: after)
    show "\<forall>v t. map_of kvs ''title'' = Some v \<and> map_of kvs ''author'' = None
             \<and> js_String rt v = Some t \<longrightarrow>
           status_of (handler rt ev req st) = Some 200
           \<and> body_of (handler rt ev req st)
               = Some (DataPayload ((books st ! idx)\<lparr>title := t\<rparr>))
           \<and> title (books (store_of (handler rt ev req st)) ! idx) = t"
      using converted by blast
    show "\<forall>v. map_of kvs ''title'' = Some v \<and> js_String rt v = None \<longrightarrow>
           status_of (handler rt ev req st) = Some 500
           \<and> store_of (handler rt ev req st) = st"
      using failed by blast
  qed
qed

definition patch_title_X :: request where
  "patch_title_X = mk_request ''PATCH'' ''/books/1'' [] bearer_ok body_title_X"

lemma readBody_title_X:
  "readBody sample_runtime (StreamEnd body_title_X) = Inr (JObj [(''title'', JStr ''X'')])"
  by (simp add: readBody_def sample_runtime_def sample_parse_def body_title_X_def)

theorem patch_changes_only_supplied_witness:
  "status_of (handler sample_runtime sample_env patch_title_X init_store) = Some 200
   \<and> map title (books (store_of (handler sample_runtime sample_env patch_title_X init_store)))
       = [''X'', ''You Don't Know JS'', ''Clean Code'']
   \<and> map author (books (store_of (handler sample_runtime sample_env patch_title_X init_store)))
       = map author (books init_store)
   \<and> map book_id (books (store_of (handler sample_runtime sample_env patch_title_X init_store)))
       = [Fin 1, Fin 2, Fin 3]"
proof -
  let ?out = "handler sample_runtime sample_env patch_title_X init_store"
  have m: "req_method patch_title_X = ''PATCH''"
    and p: "path_id (pathname patch_title_X) = Some (Fin 1)"
    and b: "readBody sample_runtime (body_stream patch_title_X) = Inr (JObj [(''title'', JStr ''X'')])"
    by (simp_all add: patch_title_X_def mk_request_def path_id_books_1 readBody_title_X)
  have t: "token_of patch_title_X = Some DEMO_BEARER"
    by (simp add: patch_title_X_def token_of_bearer_ok)
  have k: "map_of [(''title'', JStr ''X'' :: int jsval)] ''title'' = Some (JStr ''X'')
           \<and> map_of [(''title'', JStr ''X'' :: int jsval)] ''author'' = None
           \<and> js_String sample_runtime (JStr ''X'') = Some ''X''"
    and na: "map_of [(''title'', JStr ''X'' :: int jsval)] ''author'' = None"
    by simp_all
  from patch_changes_only_supplied [OF m p t b book_1_exists, of sample_env]
  obtain idx where idx: "idx < length (books init_store)" "book_id (books init_store ! idx) = Fin 1"
    and len: "length (books (store_of ?out)) = length (books init_store)"
    and others: "\<forall>j<length (books init_store). j \<noteq> idx \<longrightarrow> books (store_of ?out) ! j = books init_store ! j"
    and bi: "book_id (books (store_of ?out) ! idx) = Fin 1"
    and au: "map_of [(''title'', JStr ''X'' :: int jsval)] ''author'' = None \<longrightarrow>
               author (books (store_of ?out) ! idx) = author (books init_store ! idx)"
    and conv: "\<forall>v t. map_of [(''title'', JStr ''X'' :: int jsval)] ''title'' = Some v
                 \<and> map_of [(''title'', JStr ''X'' :: int jsval)] ''author'' = None
                 \<and> js_String sample_runtime v = Some t \<longrightarrow>
               status_of ?out = Some 200
               \<and> body_of ?out = Some (DataPayload ((books init_store ! idx)\<lparr>title := t\<rparr>))
               \<and> title (books (store_of ?out) ! idx) = t"
    by (elim exE conjE) (rule that; assumption)
  from conv k have st: "status_of ?out = Some 200" and ti: "title (books (store_of ?out) ! idx) = ''X''"
    by blast+
  from au na have au': "author (books (store_of ?out) ! idx) = author (books init_store ! idx)"
    by blast
  have idx0: "idx = 0"
    using idx by (auto simp: init_store_def less_Suc_eq numeral_3_eq_3 nth_Cons')
  have l3: "length (books (store_of ?out)) = 3"
    using len by (simp add: init_store_def)
  then obtain a b c where abc: "books (store_of ?out) = [a, b, c]"
    by (auto simp: length_Suc_conv numeral_3_eq_3)
  from others idx0 have "books (store_of ?out) ! 1 = books init_store ! 1"
    "books (store_of ?out) ! 2 = books init_store ! 2"
    by (simp_all add: init_store_def)
  with abc ti au' bi idx0 st show ?thesis
    by (simp add: init_store_def)
qed

section \<open>Listing books\<close>

lemma js_mul_NaN_right: "js_mul x NaN = NaN"
  by (cases x) simp_all

lemma js_slice_NaN: "js_slice xs NaN NaN = []"
  by (simp add: js_slice_def)

lemma js_slice_window:
  assumes "0 \<le> s" and "s \<le> e"
  shows "js_slice xs (Fin s) (Fin e) = take (nat (e - s)) (drop (nat s) xs)"
proof -
  have k: "js_slice xs (Fin s) (Fin e)
             = take (nat (min e (int (length xs)) - min s (int (length xs))))
                 (drop (nat (min s (int (length xs)))) xs)"
    using assms by (simp add: js_slice_def Let_def)
  show ?thesis
  proof (cases "s \<le> int (length xs)")
    case inside: True
    show ?thesis
    proof (cases "e \<le> int (length xs)")
      case True
      with inside k show ?thesis
        by (simp add: min_def)
    next
      case False
      with inside k assms show ?thesis
        by (simp add: min_def)
    qed
  next
    case False
    with k assms show ?thesis
      by (simp add: min_def)
  qed
qed

lemma includes_str_sublist: "includes_str s t \<longleftrightarrow> sublist t s"
  by (induction s) (simp_all add: sublist_Cons_right)

lemma parseInt_10: "parseInt ''10'' = Fin 10"
  by (simp add: parseInt_def is_space_def is_digit_def Number_digits_def digit_val_def round53_exact)

lemma parseInt_1: "parseInt ''1'' = Fin 1"
  by (simp add: parseInt_def is_space_def is_digit_def Number_digits_def digit_val_def round53_exact)

lemma parseInt_2: "parseInt ''2'' = Fin 2"
  by (simp add: parseInt_def is_space_def is_digit_def Number_digits_def digit_val_def round53_exact)

lemma parseInt_minus_1: "parseInt ''-1'' = Fin (- 1)"
  by (simp add: parseInt_def is_space_def is_digit_def Number_digits_def digit_val_def round53_exact)

lemma limit_default: "map_of (searchParams req) ''limit'' = None \<Longrightarrow> limit_of req = Fin 10"
  by (simp add: limit_of_def param_or_def parseInt_10)

lemma page_default: "map_of (searchParams req) ''page'' = None \<Longrightarrow> page_of req = Fin 1"
  by (simp add: page_of_def param_or_def parseInt_1)

lemma list_books_answer:
  assumes "req_method req = ''GET''" and "pathname req = ''/books''"
  shows "status_of (handler rt ev req st) = Some 200"
    and "body_of (handler rt ev req st)
           = Some (ListPayload (page_of req) (limit_of req) (length (filtered rt req st))
                     (page_items rt req st))"
    and "store_of (handler rt ev req st) = st"
proof -
  have m: "req_method req \<noteq> ''OPTIONS''"
    using assms(1) by simp
  have "try_block rt ev req st cors_res =
          respond rt 200 (ListPayload (page_of req) (limit_of req) (length (filtered rt req st))
                            (page_items rt req st)) st cors_res"
    by (simp add: try_block_list [OF assms] list_books_def)
  from status_of_returned [OF m this]
  show "status_of (handler rt ev req st) = Some 200"
    and "body_of (handler rt ev req st)
           = Some (ListPayload (page_of req) (limit_of req) (length (filtered rt req st))
                     (page_items rt req st))"
    and "store_of (handler rt ev req st) = st"
    by simp_all
qed

lemma page_items_NaN:
  "limit_of req = NaN \<or> page_of req = NaN \<Longrightarrow> page_items rt req st = []"
  by (auto simp: page_items_def Let_def js_sub_def js_mul_NaN_right js_slice_NaN)

lemma page_items_window:
  assumes "limit_of req = Fin l" and "page_of req = Fin p"
    and "0 \<le> l" and "1 \<le> p" and "p * l < 2 ^ 53"
  shows "page_items rt req st = take (nat l) (drop (nat ((p - 1) * l)) (filtered rt req st))"
proof (cases "l = 0")
  case True
  have "js_mul (round53 (p - 1)) (Fin 0) = Fin 0 \<or> js_mul (round53 (p - 1)) (Fin 0) = NaN"
    by (cases "round53 (p - 1)") (simp_all add: round53_exact)
  then show ?thesis
    using assms(1,2) True
    by (auto simp: page_items_def Let_def js_sub_def round53_exact js_slice_def)
next
  case False
  with assms(3) have l: "1 \<le> l"
    by simp
  have "p * 1 \<le> p * l"
    using l assms(4) by (intro mult_left_mono) simp_all
  with assms(5) have p: "p < 2 ^ 53"
    by simp
  have "(p - 1) * l \<le> p * l"
    using l by (intro mult_right_mono) simp_all
  with assms(5) have s: "(p - 1) * l < 2 ^ 53"
    by simp
  have s0: "0 \<le> (p - 1) * l"
    using assms(3,4) by simp
  have e: "(p - 1) * l + l = p * l"
    by (simp add: algebra_simps)
  have pl0: "0 \<le> p * l"
    using assms(3,4) by simp
  have "page_items rt req st = js_slice (filtered rt req st) (Fin ((p - 1) * l)) (Fin (p * l))"
    using assms(1,2,4) p s s0 pl0 assms(5)
    by (simp add: page_items_def Let_def js_sub_def round53_exact e abs_if)
  also have "\<dots> = take (nat (p * l - (p - 1) * l)) (drop (nat ((p - 1) * l)) (filtered rt req st))"
    using s0 l by (intro js_slice_window) (simp_all add: e [symmetric])
  also have "p * l - (p - 1) * l = l"
    by (simp add: algebra_simps)
  finally show ?thesis .
qed


lemma filtered_by_author:
  "map_of (searchParams req) ''author'' = Some a \<Longrightarrow> a \<noteq> [] \<Longrightarrow>
   filtered rt req st
     = filter (\<lambda>b. sublist (toLowerCase rt a) (toLowerCase rt (author b))) (books st)"
  by (simp add: filtered_def includes_str_sublist)

lemma filtered_no_author:
  "map_of (searchParams req) ''author'' = None \<Longrightarrow> filtered rt req st = books st"
  by (simp add: filtered_def)

text \<open>
  On the seeded store, \<open>author=KYLE\<close> keeps the one record whose author contains
  \<open>kyle\<close> in any letter case.
\<close>

lemma listing_by_author_example:
  "filtered sample_runtime (mk_request ''GET'' ''/books'' [(''author'', ''KYLE'')] None []) init_store
     = [\<lparr>book_id = Fin 2, title = ''You Don't Know JS'', author = ''Kyle Simpson''\<rparr>]"
  by (simp add: filtered_def mk_request_def sample_runtime_def init_store_def ascii_lower_def
      char_of_def bit_iff_odd)

definition no_numeric_prefix :: "string \<Rightarrow> bool" where
  \<comment> \<open>after white space and one optional sign the text does not go on with a digit\<close>
  "no_numeric_prefix s =
     (case dropWhile is_space s of
        [] \<Rightarrow> True
      | c # cs \<Rightarrow>
          if c = CHR ''-'' \<or> c = CHR ''+''
          then (case cs of [] \<Rightarrow> True | d # _ \<Rightarrow> \<not> is_digit d)
          else \<not> is_digit c)"

lemma takeWhile_empty: "takeWhile P xs = [] \<longleftrightarrow> (case xs of [] \<Rightarrow> True | x # _ \<Rightarrow> \<not> P x)"
  by (cases xs) simp_all

lemma parseInt_NaN_iff: "parseInt s = NaN \<longleftrightarrow> no_numeric_prefix s"
proof -
  obtain t where t: "dropWhile is_space s = t"
    by simp
  show ?thesis
  proof (cases t)
    case Nil
    show ?thesis
      unfolding parseInt_def no_numeric_prefix_def t Nil by simp
  next
    case (Cons c cs)
    show ?thesis
    proof (cases "c = CHR ''-'' \<or> c = CHR ''+''")
      case True
      then show ?thesis
        unfolding parseInt_def no_numeric_prefix_def t Cons
        by (cases cs) (auto simp add: Let_def round53_not_NaN)
    next
      case False
      then show ?thesis
        unfolding parseInt_def no_numeric_prefix_def t Cons
        by (simp add: Let_def round53_not_NaN)
    qed
  qed
qed

text \<open>
  Claim C5 says, for every listing, that \<open>limit\<close> defaults to 10 and \<open>page\<close> to 1, that
  a non-empty \<open>author\<close> parameter keeps exactly the records whose author has it as a
  substring, case ignored, that \<open>total\<close> is the size of the filtered collection, and
  that \<open>data\<close> is the slice of the filtered collection from index
  \<open>(page - 1) * limit\<close>, of length at most \<open>limit\<close>. The last part fails for a
  negative \<open>limit\<close>: \<open>slice\<close> counts a negative end from the end of the list, so
  \<open>limit=-1\<close> on the first page gives all records but the last: two records, with a
  limit of \<open>-1\<close>.
\<close>

definition list_limit_minus_1 :: request where
  "list_limit_minus_1 = mk_request ''GET'' ''/books'' [(''limit'', ''-1'')] None []"

lemma filtered_sample_all:
  "filtered rt (mk_request m p [(k, v)] a b) st = (if k = ''author'' \<and> v \<noteq> [] then
     filter (\<lambda>b. includes_str (toLowerCase rt (author b)) (toLowerCase rt v)) (books st)
   else books st)"
  by (simp add: filtered_def mk_request_def)

theorem negative_limit_counterexample:
  "limit_of list_limit_minus_1 = Fin (- 1)
   \<and> page_of list_limit_minus_1 = Fin 1
   \<and> body_of (handler sample_runtime sample_env list_limit_minus_1 init_store)
       = Some (ListPayload (Fin 1) (Fin (- 1)) 3
           [\<lparr>book_id = Fin 1, title = ''Eloquent JS'', author = ''Marijn Haverbeke''\<rparr>,
            \<lparr>book_id = Fin 2, title = ''You Don't Know JS'', author = ''Kyle Simpson''\<rparr>])"
proof -
  have m: "req_method list_limit_minus_1 = ''GET''" and p: "pathname list_limit_minus_1 = ''/books''"
    by (simp_all add: list_limit_minus_1_def mk_request_def)
  have l: "limit_of list_limit_minus_1 = Fin (- 1)"
    by (simp add: limit_of_def list_limit_minus_1_def mk_request_def param_or_def parseInt_minus_1)
  have g: "page_of list_limit_minus_1 = Fin 1"
    by (simp add: page_of_def list_limit_minus_1_def mk_request_def param_or_def parseInt_1)
  have f: "filtered sample_runtime list_limit_minus_1 init_store = books init_store"
    by (simp add: list_limit_minus_1_def filtered_sample_all)
  have "page_items sample_runtime list_limit_minus_1 init_store
          = js_slice (books init_store) (Fin 0) (Fin (- 1))"
    by (simp add: page_items_def Let_def l g f js_sub_def round53_exact)
  also have "\<dots> = take 2 (books init_store)"
    by (simp add: js_slice_def init_store_def)
  finally have i: "page_items sample_runtime list_limit_minus_1 init_store = take 2 (books init_store)" .
  have len: "length (books init_store) = 3"
    and two: "take 2 (books init_store)
      = [\<lparr>book_id = Fin 1, title = ''Eloquent JS'', author = ''Marijn Haverbeke''\<rparr>,
         \<lparr>book_id = Fin 2, title = ''You Don't Know JS'', author = ''Kyle Simpson''\<rparr>]"
    by (simp_all add: init_store_def)
  from list_books_answer(2) [OF m p, of sample_runtime sample_env init_store] l g
  show ?thesis
    by (simp add: i f len two)
qed

text \<open>
  Claim C5 as amended: the defaults, the filter, \<open>total\<close> and the shape of the answer
  are as the claim says for every listing, and \<open>data\<close> is
  \<open>list.slice(startIdx, startIdx + limit)\<close>. When \<open>limit\<close> and \<open>page\<close> are integers
  with \<open>0 \<le> limit\<close>, \<open>1 \<le> page\<close> and \<open>page * limit < 2^53\<close>, this is the slice of the
  filtered collection from index \<open>(page - 1) * limit\<close> of length at most \<open>limit\<close>; with
  \<open>limit = 1\<close> and \<open>page = 2\<close> on at least two filtered records it is the second
  record alone. \<open>sublist\<close> is the contiguous-sublist relation of the library.
\<close>

theorem listing_is_filtered_and_paged:
  assumes "req_method req = ''GET''" and "pathname req = ''/books''"
  shows "(map_of (searchParams req) ''limit'' = None \<longrightarrow> limit_of req = Fin 10)
         \<and> (map_of (searchParams req) ''page'' = None \<longrightarrow> page_of req = Fin 1)
         \<and> (\<forall>a. map_of (searchParams req) ''author'' = Some a \<and> a \<noteq> [] \<longrightarrow>
               filtered rt req st
                 = filter (\<lambda>b. sublist (toLowerCase rt a) (toLowerCase rt (author b))) (books st))
         \<and> (map_of (searchParams req) ''author'' = None \<longrightarrow> filtered rt req st = books st)
         \<and> status_of (handler rt ev req st) = Some 200
         \<and> body_of (handler rt ev req st)
             = Some (ListPayload (page_of req) (limit_of req) (length (filtered rt req st))
                       (page_items rt req st))
         \<and> (\<forall>l p. limit_of req = Fin l \<and> page_of req = Fin p \<and> 0 \<le> l \<and> 1 \<le> p
                   \<and> p * l < 2 ^ 53 \<longrightarrow>
               page_items rt req st
                 = take (nat l) (drop (nat ((p - 1) * l)) (filtered rt req st))
               \<and> int (length (page_items rt req st)) \<le> l)
         \<and> (limit_of req = Fin 1 \<and> page_of req = Fin 2 \<and> 2 \<le> length (filtered rt req st) \<longrightarrow>
               page_items rt req st = [filtered rt req st ! 1])
         \<and> store_of (handler rt ev req st) = st"
proof -
  have window: "page_items rt req st = take (nat l) (drop (nat ((p - 1) * l)) (filtered rt req st))
                \<and> int (length (page_items rt req st)) \<le> l"
    if "limit_of req = Fin l \<and> page_of req = Fin p \<and> 0 \<le> l \<and> 1 \<le> p \<and> p * l < 2 ^ 53" for l p
  proof -
    from that have "page_items rt req st
                      = take (nat l) (drop (nat ((p - 1) * l)) (filtered rt req st))"
      by (intro page_items_window) simp_all
    moreover have "length (take (nat l) (drop (nat ((p - 1) * l)) (filtered rt req st))) \<le> nat l"
      by simp
    with that have "int (length (take (nat l) (drop (nat ((p - 1) * l)) (filtered rt req st)))) \<le> l"
      by linarith
    ultimately show ?thesis
      by simp
  qed
  have second: "page_items rt req st = [filtered rt req st ! 1]"
    if "limit_of req = Fin 1 \<and> page_of req = Fin 2 \<and> 2 \<le> length (filtered rt req st)"
  proof -
    from that have "page_items rt req st = take (nat 1) (drop (nat ((2 - 1) * 1)) (filtered rt req st))"
      by (intro page_items_window) simp_all
    also have "\<dots> = take 1 (drop 1 (filtered rt req st))"
      by simp
    also have "\<dots> = [filtered rt req st ! 1]"
    proof -
      from that have "1 < length (filtered rt req st)"
        by simp
      from Cons_nth_drop_Suc [OF this]
      have "drop 1 (filtered rt req st) = filtered rt req st ! 1 # drop 2 (filtered rt req st)"
        by (simp add: numeral_2_eq_2)
      then show ?thesis
        by simp
    qed
    finally show ?thesis .
  qed
  from limit_default [of req] page_default [of req] filtered_by_author [of req _ rt st]
    filtered_no_author [of req rt st] list_books_answer [OF assms, of rt ev st] window second
  show ?thesis
    by blast
qed

definition list_second_of_one :: request where
  "list_second_of_one = mk_request ''GET'' ''/books'' [(''limit'', ''1''), (''page'', ''2'')] None []"

theorem listing_is_filtered_and_paged_witness:
  "limit_of list_second_of_one = Fin 1
   \<and> page_of list_second_of_one = Fin 2
   \<and> filtered sample_runtime list_second_of_one init_store = books init_store
   \<and> status_of (handler sample_runtime sample_env list_second_of_one init_store) = Some 200
   \<and> body_of (handler sample_runtime sample_env list_second_of_one init_store)
       = Some (ListPayload (Fin 2) (Fin 1) 3
           [\<lparr>book_id = Fin 2, title = ''You Don't Know JS'', author = ''Kyle Simpson''\<rparr>])"
proof -
  have m: "req_method list_second_of_one = ''GET''" and p: "pathname list_second_of_one = ''/books''"
    by (simp_all add: list_second_of_one_def mk_request_def)
  have l: "limit_of list_second_of_one = Fin 1"
    by (simp add: limit_of_def list_second_of_one_def mk_request_def param_or_def parseInt_1)
  have g: "page_of list_second_of_one = Fin 2"
    by (simp add: page_of_def list_second_of_one_def mk_request_def param_or_def parseInt_2)
  have a: "map_of (searchParams list_second_of_one) ''author'' = None"
    by (simp add: list_second_of_one_def mk_request_def)
  note paged = listing_is_filtered_and_paged [OF m p, of sample_runtime init_store sample_env]
  from paged a have f: "filtered sample_runtime list_second_of_one init_store = books init_store"
    by blast
  from paged have s: "status_of (handler sample_runtime sample_env list_second_of_one init_store) = Some 200"
    by blast
  from paged
  have b: "body_of (handler sample_runtime sample_env list_second_of_one init_store)
             = Some (ListPayload (page_of list_second_of_one) (limit_of list_second_of_one)
                       (length (filtered sample_runtime list_second_of_one init_store))
                       (page_items sample_runtime list_second_of_one init_store))"
    by blast
  have len: "length (books init_store) = 3" and second: "books init_store ! 1
      = \<lparr>book_id = Fin 2, title = ''You Don't Know JS'', author = ''Kyle Simpson''\<rparr>"
    by (simp_all add: init_store_def)
  from len f have "2 \<le> length (filtered sample_runtime list_second_of_one init_store)"
    by simp
  with paged l g
  have "page_items sample_runtime list_second_of_one init_store
          = [filtered sample_runtime list_second_of_one init_store ! 1]"
    by blast
  with l g f s b len second show ?thesis
    by simp
qed

text \<open>
  Claim C10 says that a listing whose \<open>limit\<close> or \<open>page\<close> parameter is a string with
  no leading number is answered with 200, \<open>total\<close> the size of the filtered
  collection and \<open>data\<close> empty. The listener parses
  \<open>searchParams.get('limit') || '10'\<close>: the empty string is a parameter with no
  leading number, and the default is parsed in its place. \<open>GET /books?limit=\<close> on the
  seeded store is answered with limit 10 and all three records.
\<close>

definition list_limit_empty :: request where
  "list_limit_empty = mk_request ''GET'' ''/books'' [(''limit'', [])] None []"

theorem empty_limit_counterexample:
  "map_of (searchParams list_limit_empty) ''limit'' = Some []
   \<and> no_numeric_prefix []
   \<and> status_of (handler sample_runtime sample_env list_limit_empty init_store) = Some 200
   \<and> body_of (handler sample_runtime sample_env list_limit_empty init_store)
       = Some (ListPayload (Fin 1) (Fin 10) 3
           [\<lparr>book_id = Fin 1, title = ''Eloquent JS'', author = ''Marijn Haverbeke''\<rparr>,
            \<lparr>book_id = Fin 2, title = ''You Don't Know JS'', author = ''Kyle Simpson''\<rparr>,
            \<lparr>book_id = Fin 3, title = ''Clean Code'', author = ''Robert C. Martin''\<rparr>])"
proof -
  have m: "req_method list_limit_empty = ''GET''" and p: "pathname list_limit_empty = ''/books''"
    and q: "map_of (searchParams list_limit_empty) ''limit'' = Some []"
    by (simp_all add: list_limit_empty_def mk_request_def)
  have n: "no_numeric_prefix []"
    by (simp add: no_numeric_prefix_def)
  have l: "limit_of list_limit_empty = Fin 10"
    by (simp add: limit_of_def list_limit_empty_def mk_request_def param_or_def parseInt_10)
  have g: "page_of list_limit_empty = Fin 1"
    by (simp add: page_of_def list_limit_empty_def mk_request_def param_or_def parseInt_1)
  have f: "filtered sample_runtime list_limit_empty init_store = books init_store"
    by (simp add: list_limit_empty_def filtered_sample_all)
  have "page_items sample_runtime list_limit_empty init_store
          = js_slice (books init_store) (Fin 0) (Fin 10)"
    by (simp add: page_items_def Let_def l g f js_sub_def round53_exact)
  also have "\<dots> = books init_store"
    by (simp add: js_slice_def init_store_def)
  finally have i: "page_items sample_runtime list_limit_empty init_store = books init_store" .
  have len: "length (books init_store) = 3"
    and all: "books init_store
      = [\<lparr>book_id = Fin 1, title = ''Eloquent JS'', author = ''Marijn Haverbeke''\<rparr>,
         \<lparr>book_id = Fin 2, title = ''You Don't Know JS'', author = ''Kyle Simpson''\<rparr>,
         \<lparr>book_id = Fin 3, title = ''Clean Code'', author = ''Robert C. Martin''\<rparr>]"
    by (simp_all add: init_store_def)
  from list_books_answer(1,2) [OF m p, of sample_runtime sample_env init_store] l g q n
  show ?thesis
    by (simp add: i f len all)
qed

text \<open>
  Claim C10 as amended: every listing is answered with 200, whatever its parameters,
  and \<open>total\<close> is the number of records the author filter keeps. When the \<open>limit\<close>
  parameter or the \<open>page\<close> parameter is a non-empty string with no leading number
  (after white space and one sign), \<open>parseInt\<close> gives \<open>NaN\<close> for it and \<open>data\<close> is
  empty. An empty parameter counts as absent: the default, 10 or 1, is parsed.
\<close>

theorem unparsable_paging_gives_empty_page:
  assumes "req_method req = ''GET''" and "pathname req = ''/books''"
  shows "status_of (handler rt ev req st) = Some 200
         \<and> store_of (handler rt ev req st) = st
         \<and> (\<exists>data.
               body_of (handler rt ev req st)
                 = Some (ListPayload (page_of req) (limit_of req)
                     (length
                        (case map_of (searchParams req) ''author'' of
                           None \<Rightarrow> books st
                         | Some a \<Rightarrow>
                             if a = [] then books st
                             else filter
                                    (\<lambda>b. sublist (toLowerCase rt a) (toLowerCase rt (author b)))
                                    (books st)))
                     data)
               \<and> (\<forall>l. map_of (searchParams req) ''limit'' = Some l \<and> l \<noteq> []
                       \<and> no_numeric_prefix l \<longrightarrow>
                     limit_of req = NaN \<and> data = [])
               \<and> (\<forall>g. map_of (searchParams req) ''page'' = Some g \<and> g \<noteq> []
                       \<and> no_numeric_prefix g \<longrightarrow>
                     page_of req = NaN \<and> data = []))
         \<and> (map_of (searchParams req) ''limit'' = Some [] \<longrightarrow> limit_of req = Fin 10)
         \<and> (map_of (searchParams req) ''page'' = Some [] \<longrightarrow> page_of req = Fin 1)"
proof -
  have total: "length (filtered rt req st)
      = length
          (case map_of (searchParams req) ''author'' of
             None \<Rightarrow> books st
           | Some a \<Rightarrow>
               if a = [] then books st
               else filter (\<lambda>b. sublist (toLowerCase rt a) (toLowerCase rt (author b))) (books st))"
    by (simp add: filtered_def includes_str_sublist split: option.splits)
  have limit: "limit_of req = NaN \<and> page_items rt req st = []"
    if "map_of (searchParams req) ''limit'' = Some l \<and> l \<noteq> [] \<and> no_numeric_prefix l" for l
  proof -
    from that have "limit_of req = NaN"
      by (simp add: limit_of_def param_or_def parseInt_NaN_iff)
    with page_items_NaN [of req rt st] show ?thesis
      by simp
  qed
  have page: "page_of req = NaN \<and> page_items rt req st = []"
    if "map_of (searchParams req) ''page'' = Some g \<and> g \<noteq> [] \<and> no_numeric_prefix g" for g
  proof -
    from that have "page_of req = NaN"
      by (simp add: page_of_def param_or_def parseInt_NaN_iff)
    with page_items_NaN [of req rt st] show ?thesis
      by simp
  qed
  have dl: "map_of (searchParams req) ''limit'' = Some [] \<longrightarrow> limit_of req = Fin 10"
    by (simp add: limit_of_def param_or_def parseInt_10)
  have dp: "map_of (searchParams req) ''page'' = Some [] \<longrightarrow> page_of req = Fin 1"
    by (simp add: page_of_def param_or_def parseInt_1)
  note a = list_books_answer [OF assms, of rt ev st]
  have body: "body_of (handler rt ev req st)
             = Some (ListPayload (page_of req) (limit_of req)
                 (length
                    (case map_of (searchParams req) ''author'' of
                       None \<Rightarrow> books st
                     | Some a \<Rightarrow>
                         if a = [] then books st
                         else filter
                                (\<lambda>b. sublist (toLowerCase rt a) (toLowerCase rt (author b)))
                                (books st)))
                 (page_items rt req st))"
    unfolding a(2) total ..
  show ?thesis
  proof (intro conjI exI [of _ "page_items rt req st"])
    show "status_of (handler rt ev req st) = Some 200" "store_of (handler rt ev req st) = st"
      by (rule a(1), rule a(3))
    show "body_of (handler rt ev req st)
             = Some (ListPayload (page_of req) (limit_of req)
                 (length
                    (case map_of (searchParams req) ''author'' of
                       None \<Rightarrow> books st
                     | Some a \<Rightarrow>
                         if a = [] then books st
                         else filter
                                (\<lambda>b. sublist (toLowerCase rt a) (toLowerCase rt (author b)))
                                (books st)))
                 (page_items rt req st))"
      by (rule body)
    show "\<forall>l. map_of (searchParams req) ''limit'' = Some l \<and> l \<noteq> [] \<and> no_numeric_prefix l \<longrightarrow>
               limit_of req = NaN \<and> page_items rt req st = []"
      using limit by blast
    show "\<forall>g. map_of (searchParams req) ''page'' = Some g \<and> g \<noteq> [] \<and> no_numeric_prefix g \<longrightarrow>
               page_of req = NaN \<and> page_items rt req st = []"
      using page by blast
    show "map_of (searchParams req) ''limit'' = Some [] \<longrightarrow> limit_of req = Fin 10"
      by (rule dl)
    show "map_of (searchParams req) ''page'' = Some [] \<longrightarrow> page_of req = Fin 1"
      by (rule dp)
  qed
qed

definition list_limit_abc :: request where
  "list_limit_abc =
     mk_request ''GET'' ''/books'' [(''limit'', ''abc''), (''author'', ''KYLE'')] None []"

theorem unparsable_paging_gives_empty_page_witness:
  "map_of (searchParams list_limit_abc) ''limit'' = Some ''abc''
   \<and> no_numeric_prefix ''abc''
   \<and> status_of (handler sample_runtime sample_env list_limit_abc init_store) = Some 200
   \<and> body_of (handler sample_runtime sample_env list_limit_abc init_store)
       = Some (ListPayload (Fin 1) NaN 1 [])"
proof -
  have m: "req_method list_limit_abc = ''GET''" and p: "pathname list_limit_abc = ''/books''"
    and q: "map_of (searchParams list_limit_abc) ''limit'' = Some ''abc''"
    and au: "map_of (searchParams list_limit_abc) ''author'' = Some ''KYLE''"
    by (simp_all add: list_limit_abc_def mk_request_def)
  have n: "no_numeric_prefix ''abc''"
    by (simp add: no_numeric_prefix_def is_space_def is_digit_def)
  have g: "page_of list_limit_abc = Fin 1"
    by (simp add: page_of_def list_limit_abc_def mk_request_def param_or_def parseInt_1)
  have kept: "filter (\<lambda>b. sublist (toLowerCase sample_runtime ''KYLE'')
                             (toLowerCase sample_runtime (author b))) (books init_store)
                = [\<lparr>book_id = Fin 2, title = ''You Don't Know JS'', author = ''Kyle Simpson''\<rparr>]"
    by (simp add: includes_str_sublist [symmetric] sample_runtime_def init_store_def
        ascii_lower_def char_of_def bit_iff_odd)
  from unparsable_paging_gives_empty_page [OF m p, of sample_runtime sample_env init_store]
  obtain data
    where s: "status_of (handler sample_runtime sample_env list_limit_abc init_store) = Some 200"
      and b: "body_of (handler sample_runtime sample_env list_limit_abc init_store)
          = Some (ListPayload (page_of list_limit_abc) (limit_of list_limit_abc)
              (length
                 (case map_of (searchParams list_limit_abc) ''author'' of
                    None \<Rightarrow> books init_store
                  | Some a \<Rightarrow>
                      if a = [] then books init_store
                      else filter
                             (\<lambda>b. sublist (toLowerCase sample_runtime a)
                                    (toLowerCase sample_runtime (author b)))
                             (books init_store)))
              data)"
      and l: "\<forall>l. map_of (searchParams list_limit_abc) ''limit'' = Some l \<and> l \<noteq> []
                  \<and> no_numeric_prefix l \<longrightarrow>
                limit_of list_limit_abc = NaN \<and> data = []"
    by (elim exE conjE) (rule that; assumption)
  from l q n have e: "limit_of list_limit_abc = NaN" "data = []"
    by auto
  from s b q n show ?thesis
    by (simp add: au kept e g)
qed

section \<open>Ids in paths\<close>

text \<open>
  The path of a book is \<open>/books/\<close> followed by the decimal numeral of its id; the
  route match reads the id back, exactly when it is below \<open>2^53\<close>.
\<close>

lemma digit_char_digit: "d < 10 \<Longrightarrow> is_digit (digit_char d) \<and> digit_val (digit_char d) = d"
  by (simp add: is_digit_def digit_val_def digit_char_def)

lemma Number_digits_snoc: "Number_digits (ds @ [c]) = 10 * Number_digits ds + digit_val c"
  by (simp add: Number_digits_def)

lemma show_nat_digits:
  "show_nat n \<noteq> [] \<and> list_all is_digit (show_nat n) \<and> Number_digits (show_nat n) = n"
proof (induction n rule: show_nat.induct)
  case (1 n)
  show ?case
  proof (cases "n < 10")
    case True
    then show ?thesis
      by (subst (1 2 3) show_nat.simps) (simp add: digit_char_digit Number_digits_def)
  next
    case False
    have "n mod 10 < 10"
      by simp
    with False 1 show ?thesis
      by (subst (1 2 3) show_nat.simps)
         (simp add: digit_char_digit Number_digits_snoc del: mod_less_divisor)
  qed
qed

lemma path_id_show_nat:
  assumes "n < 2 ^ 53"
  shows "path_id (''/books/'' @ show_nat n) = Some (Fin (int n))"
proof -
  from assms have "\<bar>int n\<bar> < 2 ^ 53"
    by simp
  then have "round53 (int n) = Fin (int n)"
    by (rule round53_exact)
  with show_nat_digits [of n] show ?thesis
    by (simp add: path_id_def bookMatch_def)
qed

section \<open>The counter\<close>

text \<open>
  \<open>nextId++\<close> is exact while the counter is below \<open>2^53\<close>. At \<open>2^53\<close> the sum
  \<open>2^53 + 1\<close> lies halfway between two doubles and rounds to the even one, \<open>2^53\<close>:
  the counter stays.
\<close>

lemma bit_len_bounds: "2 ^ k \<le> n \<Longrightarrow> n < 2 ^ Suc k \<Longrightarrow> bit_len n = Suc k"
proof (induction k arbitrary: n)
  case 0
  then have "n = 1"
    by simp
  then show ?case
    by (simp add: bit_len.simps [of "Suc 0"] bit_len.simps [of 0])
next
  case (Suc k)
  from Suc.prems have "2 ^ k \<le> n div 2" and "n div 2 < 2 ^ Suc k" and "n \<noteq> 0"
    by auto
  with Suc.IH [of "n div 2"] show ?case
    by (simp add: bit_len.simps [of n])
qed

lemma round53_limit: "round53 (2 ^ 53) = Fin (2 ^ 53)"
proof -
  have "bit_len (2 ^ 53) = 54"
    using bit_len_bounds [of 53 "2 ^ 53"] by simp
  then show ?thesis
    by (simp add: round53_def Let_def)
qed


lemma counter_exact: "0 \<le> n \<Longrightarrow> n < 2 ^ 53 \<Longrightarrow> js_add (Fin n) (Fin 1) = Fin (n + 1)"
proof -
  assume n: "0 \<le> n" "n < 2 ^ 53"
  show ?thesis
  proof (cases "n + 1 < 2 ^ 53")
    case True
    with n have "\<bar>n + 1\<bar> < 2 ^ 53"
      by simp
    then show ?thesis
      by (simp add: round53_exact)
  next
    case False
    with n have e: "n + 1 = 2 ^ 53"
      by simp
    have "js_add (Fin n) (Fin 1) = round53 (n + 1)"
      by simp
    also have "\<dots> = Fin (n + 1)"
      unfolding e by (rule round53_limit)
    finally show ?thesis .
  qed
qed



section \<open>Creating a book and reading it back\<close>

lemma answer_returned:
  assumes "req_method req \<noteq> ''OPTIONS''"
    and "try_block rt ev req st cors_res = respond rt s p st' r"
    and "writable r"
  shows "status_of (handler rt ev req st) = Some s"
    and "body_of (handler rt ev req st) = Some p"
    and "store_of (handler rt ev req st) = st'"
    and "thrown (handler rt ev req st) = Some ERR_HTTP_HEADERS_SENT"
proof -
  from assms(2) have "thrown (try_block rt ev req st cors_res) = None"
    by (simp add: respond_open [OF assms(3)])
  from handler_returned [OF assms(1) this] assms(2)
  show "status_of (handler rt ev req st) = Some s"
    and "body_of (handler rt ev req st) = Some p"
    and "store_of (handler rt ev req st) = st'"
    and "thrown (handler rt ev req st) = Some ERR_HTTP_HEADERS_SENT"
    by (simp_all add: respond_open [OF assms(3)] status_of_def body_of_def sent_def)
qed

lemma answer_sent [simp]:
  "answer_status (sent out) = status_of out" "answer_body (sent out) = body_of out"
  by (simp_all add: answer_status_def answer_body_def status_of_def body_of_def)

lemma answer_of_running:
  "answer_status (answer rt ev req (Running st)) = status_of (handler rt ev req st)"
  "answer_body (answer rt ev req (Running st)) = body_of (handler rt ev req st)"
  by simp_all

lemma proceed_fatal:
  "thrown (handler rt ev req st) = Some e \<Longrightarrow> proceed rt Fatal ev req (Running st) = Exited"
  by (simp add: proceed_def)

lemma proceed_tolerated:
  "proceed rt Tolerated ev req (Running st) = Running (store_of (handler rt ev req st))"
  by (simp add: proceed_def Let_def)

lemma proceed_returned:
  "thrown (handler rt ev req st) = None \<Longrightarrow>
   proceed rt mode ev req (Running st) = Running (store_of (handler rt ev req st))"
  by (simp add: proceed_def Let_def)

lemma proceed_exited [simp]: "proceed rt mode ev req Exited = Exited"
  by (simp add: proceed_def)

lemma proceed_cases:
  "proceed rt mode ev req (Running st) = Exited
   \<or> proceed rt mode ev req (Running st) = Running (store_of (handler rt ev req st))"
  by (simp add: proceed_def Let_def)

lemma get_prop_Some_truthy: "get_prop body k = Some v \<Longrightarrow> ToBoolean rt body"
  by (cases body) simp_all

lemma create_valid:
  assumes "req_method req = ''POST''" and "pathname req = ''/books''"
    and "token_of req = Some DEMO_BEARER"
    and "readBody rt (body_stream req) = Inr body"
    and "get_prop body ''title'' = Some tv" and "ToBoolean rt tv" and "js_String rt tv = Some t"
    and "get_prop body ''author'' = Some av" and "ToBoolean rt av" and "js_String rt av = Some a"
  shows "try_block rt ev req st cors_res =
           respond rt 201 (DataPayload \<lparr>book_id = nextId st, title = t, author = a\<rparr>)
             (st\<lparr>nextId := js_add (nextId st) (Fin 1),
                 books := books st @ [\<lparr>book_id = nextId st, title = t, author = a\<rparr>]\<rparr>)
             (cors_res\<lparr>headers := put_header ''Set-Cookie''
                 (''sessionId='' @ random_hex ev @ ''; HttpOnly; Path=/'') (headers cors_res)\<rparr>)"
  using assms(4-10) get_prop_Some_truthy [OF assms(5), of rt]
  by (simp add: try_block_create [OF assms(1,2,3)] create_book_def missing_fields_def truthy_def
      String_of_def Let_def setHeader_open writable_cors_res)

lemma create_falsy_title:
  assumes "req_method req = ''POST''" and "pathname req = ''/books''"
    and "token_of req = Some DEMO_BEARER"
    and "readBody rt (body_stream req) = Inr body"
    and "get_prop body ''title'' = Some tv" and "\<not> ToBoolean rt tv"
  shows "try_block rt ev req st cors_res =
           respond rt 400 (ErrorPayload ''Missing title or author in request body'') st cors_res"
  using assms(4-6)
  by (simp add: try_block_create [OF assms(1,2,3)] create_book_def missing_fields_def truthy_def)

lemma get_answer:
  assumes "req_method req = ''GET''" and "path_id (pathname req) = Some i"
  shows "find (\<lambda>b. book_id b = i) (books st) = Some b \<Longrightarrow>
           status_of (handler rt ev req st) = Some 200
           \<and> body_of (handler rt ev req st)
               = Some (DataCookiesPayload b (parseCookies (cookie req)))"
    and "find (\<lambda>b. book_id b = i) (books st) = None \<Longrightarrow>
           status_of (handler rt ev req st) = Some 404"
proof -
  have m: "req_method req \<noteq> ''OPTIONS''"
    using assms(1) by simp
  {
    assume f: "find (\<lambda>b. book_id b = i) (books st) = Some b"
    have "try_block rt ev req st cors_res =
            respond rt 200 (DataCookiesPayload b (parseCookies (cookie req))) st
              (cors_res\<lparr>headers := put_header ''X-Server-Note'' ''served-by-node-http''
                                       (headers cors_res)\<rparr>)"
      using f
      by (simp add: try_block_get [OF assms] get_book_def setHeader_open writable_cors_res
          path_strict_eq [OF assms(2)])
    from answer_returned(1,2) [OF m this]
    show "status_of (handler rt ev req st) = Some 200
          \<and> body_of (handler rt ev req st)
              = Some (DataCookiesPayload b (parseCookies (cookie req)))"
      by (simp add: writable_cors_res)
  next
    assume f: "find (\<lambda>b. book_id b = i) (books st) = None"
    have "try_block rt ev req st cors_res = respond rt 404 (ErrorPayload ''Not found'') st cors_res"
      using f by (simp add: try_block_get [OF assms] get_book_def path_strict_eq [OF assms(2)])
    from answer_returned(1) [OF m this writable_cors_res]
    show "status_of (handler rt ev req st) = Some 404" .
  }
qed

lemma find_snoc_new:
  "\<forall>x\<in>set xs. \<not> P x \<Longrightarrow> P y \<Longrightarrow> find P (xs @ [y]) = Some y"
  by (induction xs) simp_all

lemma missing_header_rejected:
  assumes "req_method req \<in> {''POST'', ''PUT'', ''PATCH'', ''DELETE''}"
    and "take 6 (pathname req) = ''/books''"
    and "token_of req \<noteq> Some DEMO_BEARER"
  shows "status_of (handler rt ev req st) = Some 401"
proof -
  from assms(1) have m: "req_method req \<noteq> ''OPTIONS''"
    by auto
  from assms(2) have p: "prefix ''/books'' (pathname req)"
    by (simp add: starts_with_books)
  have "try_block rt ev req st cors_res =
          respond rt 401 (ErrorPayload ''Unauthorized - invalid or missing bearer token'') st
            (cors_res\<lparr>headers := put_header ''WWW-Authenticate'' www_authenticate (headers cors_res)\<rparr>)"
    using try_block_unauthorized [OF assms(1) p assms(3) writable_cors_res]
    by (simp add: unauthorized_open writable_cors_res)
  from answer_returned(1) [OF m this] show ?thesis
    by (simp add: writable_cors_res)
qed

definition post_new_book :: request where
  "post_new_book = mk_request ''POST'' ''/books'' [] bearer_ok body_new_book"

definition post_empty_title :: request where
  "post_empty_title = mk_request ''POST'' ''/books'' [] bearer_ok body_empty_title"

definition get_book_4 :: request where
  "get_book_4 = mk_request ''GET'' ''/books/4'' [] None []"

lemma distinct_sample_bodies:
  "body_new_book \<noteq> body_title_X" "body_empty_title \<noteq> body_title_X"
  "body_empty_title \<noteq> body_new_book"
  by (simp_all add: body_new_book_def body_title_X_def body_empty_title_def dq_def)

lemma readBody_new_book:
  "readBody sample_runtime (StreamEnd body_new_book)
     = Inr (JObj [(''title'', JStr ''New Book''), (''author'', JStr ''Anon'')])"
proof -
  have "body_new_book \<noteq> []"
    by (simp add: body_new_book_def)
  then show ?thesis
    by (simp add: readBody_def sample_runtime_def sample_parse_def distinct_sample_bodies)
qed

lemma readBody_empty_title:
  "readBody sample_runtime (StreamEnd body_empty_title)
     = Inr (JObj [(''title'', JStr []), (''author'', JStr ''Anon'')])"
proof -
  have "body_empty_title \<noteq> []"
    by (simp add: body_empty_title_def)
  then show ?thesis
    by (simp add: readBody_def sample_runtime_def sample_parse_def distinct_sample_bodies)
qed

lemma path_id_books_4: "path_id ''/books/4'' = Some (Fin 4)"
  by (simp add: path_id_def bookMatch_def is_digit_def Number_digits_def digit_val_def
      round53_exact)

text \<open>
  The presence check of the POST route is a truthiness check: a body whose title is
  the empty string contains a title and is answered with 400.
\<close>

lemma empty_title_is_missing:
  "readBody sample_runtime (body_stream post_empty_title)
     = Inr (JObj [(''title'', JStr []), (''author'', JStr ''Anon'')])
   \<and> token_of post_empty_title = Some DEMO_BEARER
   \<and> status_of (handler sample_runtime sample_env post_empty_title init_store) = Some 400
   \<and> store_of (handler sample_runtime sample_env post_empty_title init_store) = init_store"
proof -
  have m: "req_method post_empty_title = ''POST''" and p: "pathname post_empty_title = ''/books''"
    and b: "readBody sample_runtime (body_stream post_empty_title)
              = Inr (JObj [(''title'', JStr []), (''author'', JStr ''Anon'')])"
    by (simp_all add: post_empty_title_def mk_request_def readBody_empty_title)
  have t: "token_of post_empty_title = Some DEMO_BEARER"
    by (simp add: post_empty_title_def token_of_bearer_ok)
  have mo: "req_method post_empty_title \<noteq> ''OPTIONS''"
    using m by simp
  have k: "get_prop (JObj [(''title'', JStr []), (''author'', JStr ''Anon'' :: int jsval)]) ''title''
             = Some (JStr [])"
    and f: "\<not> ToBoolean sample_runtime (JStr [])"
    by simp_all
  from answer_returned(1,2,3) [OF mo create_falsy_title [OF m p t b k f] writable_cors_res] b t
  show ?thesis
    by simp
qed

text \<open>
  Claim C7 says that a POST on \<open>/books\<close> with the right token and a body that
  contains both \<open>title\<close> and \<open>author\<close> is answered with 201 and the created record,
  that a following GET on the new id returns the record, and that a POST without an
  Authorization header is answered with 401.

  For a body whose \<open>title\<close> and \<open>author\<close> are truthy and convert to strings the POST
  is answered with 201 and the record made of the counter and the two strings. The
  \<open>finally\<close> then calls \<open>setHeader\<close> on the ended response, which throws, and the
  listener's promise is rejected. Under Node's default handling of unhandled
  rejections the process ends there: the following GET, like any request after it, is
  not answered. Only a process that tolerates the rejection goes on to answer the GET
  with 200 and the created record, provided no older record has the counter's value
  as its id. A POST on \<open>/books\<close> without an Authorization header is answered with
  401.
\<close>

theorem create_then_read:
  assumes "req_method req = ''POST''" and "pathname req = ''/books''"
    and "token_of req = Some DEMO_BEARER"
    and "readBody rt (body_stream req) = Inr body"
    and "get_prop body ''title'' = Some tv" and "ToBoolean rt tv" and "js_String rt tv = Some t"
    and "get_prop body ''author'' = Some av" and "ToBoolean rt av" and "js_String rt av = Some a"
  shows "answer_status (answer rt ev req (Running st)) = Some 201
         \<and> answer_body (answer rt ev req (Running st))
             = Some (DataPayload \<lparr>book_id = nextId st, title = t, author = a\<rparr>)
         \<and> thrown (handler rt ev req st) = Some ERR_HTTP_HEADERS_SENT
         \<and> proceed rt Fatal ev req (Running st) = Exited
         \<and> (\<forall>ev' req'. answer rt ev' req' (proceed rt Fatal ev req (Running st)) = None)
         \<and> (\<forall>ev' req'. req_method req' = ''GET'' \<and> path_id (pathname req') = Some (nextId st)
                \<and> (\<forall>b\<in>set (books st). book_id b \<noteq> nextId st) \<longrightarrow>
              answer_status (answer rt ev' req' (proceed rt Tolerated ev req (Running st)))
                = Some 200
              \<and> answer_body (answer rt ev' req' (proceed rt Tolerated ev req (Running st)))
                  = Some (DataCookiesPayload \<lparr>book_id = nextId st, title = t, author = a\<rparr>
                            (parseCookies (cookie req'))))
         \<and> (\<forall>ev' req' st'. req_method req' = ''POST'' \<and> pathname req' = ''/books''
                \<and> authorization req' = None \<longrightarrow>
              answer_status (answer rt ev' req' (Running st')) = Some 401)"
proof -
  let ?bk = "\<lparr>book_id = nextId st, title = t, author = a\<rparr>"
  let ?st' = "st\<lparr>nextId := js_add (nextId st) (Fin 1), books := books st @ [?bk]\<rparr>"
  have m: "req_method req \<noteq> ''OPTIONS''"
    using assms(1) by simp
  have w: "writable (cors_res\<lparr>headers := put_header ''Set-Cookie''
             (''sessionId='' @ random_hex ev @ ''; HttpOnly; Path=/'') (headers cors_res)\<rparr>)"
    by (simp add: writable_cors_res)
  note r = answer_returned [OF m create_valid [OF assms, of ev st] w]
  have fatal: "proceed rt Fatal ev req (Running st) = Exited"
    by (rule proceed_fatal [OF r(4)])
  have tolerated: "proceed rt Tolerated ev req (Running st) = Running ?st'"
    by (simp add: proceed_tolerated r(3))
  have read: "answer_status (answer rt ev' req' (proceed rt Tolerated ev req (Running st)))
                = Some 200
              \<and> answer_body (answer rt ev' req' (proceed rt Tolerated ev req (Running st)))
                  = Some (DataCookiesPayload ?bk (parseCookies (cookie req')))"
    if "req_method req' = ''GET'' \<and> path_id (pathname req') = Some (nextId st)
        \<and> (\<forall>b\<in>set (books st). book_id b \<noteq> nextId st)"
    for ev' req'
  proof -
    from that have g: "req_method req' = ''GET''"
      and p: "path_id (pathname req') = Some (nextId st)"
      and fresh: "\<forall>b\<in>set (books st). \<not> book_id b = nextId st"
      by simp_all
    have "find (\<lambda>b. book_id b = nextId st) (books st @ [?bk]) = Some ?bk"
      by (rule find_snoc_new [OF fresh]) simp
    then have "find (\<lambda>b. book_id b = nextId st) (books ?st') = Some ?bk"
      by simp
    from get_answer(1) [OF g p this, of rt ev'] show ?thesis
      by (simp only: tolerated answer_of_running)
  qed
  have refused: "answer_status (answer rt ev' req' (Running st')) = Some 401"
    if "req_method req' = ''POST'' \<and> pathname req' = ''/books'' \<and> authorization req' = None"
    for ev' req' st'
  proof -
    from that have "status_of (handler rt ev' req' st') = Some 401"
      by (intro missing_header_rejected) (simp_all add: token_of_no_header)
    then show ?thesis
      by (simp add: answer_of_running)
  qed
  show ?thesis
  proof (intro conjI)
    show "answer_status (answer rt ev req (Running st)) = Some 201"
      "answer_body (answer rt ev req (Running st)) = Some (DataPayload ?bk)"
      by (simp_all add: answer_of_running r(1,2))
    show "thrown (handler rt ev req st) = Some ERR_HTTP_HEADERS_SENT"
      by (rule r(4))
    show "proceed rt Fatal ev req (Running st) = Exited"
      by (rule fatal)
    show "\<forall>ev' req'. answer rt ev' req' (proceed rt Fatal ev req (Running st)) = None"
      by (simp add: fatal)
    show "\<forall>ev' req'. req_method req' = ''GET'' \<and> path_id (pathname req') = Some (nextId st)
                \<and> (\<forall>b\<in>set (books st). book_id b \<noteq> nextId st) \<longrightarrow>
              answer_status (answer rt ev' req' (proceed rt Tolerated ev req (Running st)))
                = Some 200
              \<and> answer_body (answer rt ev' req' (proceed rt Tolerated ev req (Running st)))
                  = Some (DataCookiesPayload ?bk (parseCookies (cookie req')))"
      using read by blast
    show "\<forall>ev' req' st'. req_method req' = ''POST'' \<and> pathname req' = ''/books''
                \<and> authorization req' = None \<longrightarrow>
              answer_status (answer rt ev' req' (Running st')) = Some 401"
      using refused by blast
  qed
qed

theorem create_then_read_witness:
  "answer_status (answer sample_runtime sample_env post_new_book (Running init_store)) = Some 201
   \<and> answer_body (answer sample_runtime sample_env post_new_book (Running init_store))
       = Some (DataPayload \<lparr>book_id = Fin 4, title = ''New Book'', author = ''Anon''\<rparr>)
   \<and> proceed sample_runtime Fatal sample_env post_new_book (Running init_store) = Exited
   \<and> answer sample_runtime sample_env get_book_4
        (proceed sample_runtime Fatal sample_env post_new_book (Running init_store)) = None
   \<and> answer_status (answer sample_runtime sample_env get_book_4
        (proceed sample_runtime Tolerated sample_env post_new_book (Running init_store))) = Some 200
   \<and> answer_status (answer sample_runtime sample_env
        (mk_request ''POST'' ''/books'' [] None body_new_book) (Running init_store)) = Some 401"
proof -
  have m: "req_method post_new_book = ''POST''" and p: "pathname post_new_book = ''/books''"
    and b: "readBody sample_runtime (body_stream post_new_book)
              = Inr (JObj [(''title'', JStr ''New Book''), (''author'', JStr ''Anon'')])"
    by (simp_all add: post_new_book_def mk_request_def readBody_new_book)
  have t: "token_of post_new_book = Some DEMO_BEARER"
    by (simp add: post_new_book_def token_of_bearer_ok)
  have k: "get_prop (JObj [(''title'', JStr ''New Book''), (''author'', JStr ''Anon'' :: int jsval)]) ''title''
             = Some (JStr ''New Book'')"
    "ToBoolean sample_runtime (JStr ''New Book'')"
    "js_String sample_runtime (JStr ''New Book'') = Some ''New Book''"
    "get_prop (JObj [(''title'', JStr ''New Book''), (''author'', JStr ''Anon'' :: int jsval)]) ''author''
             = Some (JStr ''Anon'')"
    "ToBoolean sample_runtime (JStr ''Anon'')"
    "js_String sample_runtime (JStr ''Anon'') = Some ''Anon''"
    by simp_all
  have n: "nextId init_store = Fin 4"
    by (simp add: init_store_def)
  have g: "req_method get_book_4 = ''GET'' \<and> path_id (pathname get_book_4) = Some (Fin 4)
           \<and> (\<forall>b\<in>set (books init_store). book_id b \<noteq> Fin 4)"
    by (simp add: get_book_4_def mk_request_def path_id_books_4 init_store_def)
  have u: "req_method (mk_request ''POST'' ''/books'' [] None body_new_book) = ''POST''
           \<and> pathname (mk_request ''POST'' ''/books'' [] None body_new_book) = ''/books''
           \<and> authorization (mk_request ''POST'' ''/books'' [] None body_new_book) = None"
    by (simp add: mk_request_def)
  note c = create_then_read [OF m p t b k, of sample_env init_store, unfolded n]
  from c have "answer_status (answer sample_runtime sample_env post_new_book (Running init_store)) = Some 201"
    and "answer_body (answer sample_runtime sample_env post_new_book (Running init_store))
           = Some (DataPayload \<lparr>book_id = Fin 4, title = ''New Book'', author = ''Anon''\<rparr>)"
    and "proceed sample_runtime Fatal sample_env post_new_book (Running init_store) = Exited"
    and "answer sample_runtime sample_env get_book_4
           (proceed sample_runtime Fatal sample_env post_new_book (Running init_store)) = None"
    by blast+
  moreover from c g
  have "answer_status (answer sample_runtime sample_env get_book_4
          (proceed sample_runtime Tolerated sample_env post_new_book (Running init_store))) = Some 200"
    by blast
  moreover from c u
  have "answer_status (answer sample_runtime sample_env
          (mk_request ''POST'' ''/books'' [] None body_new_book) (Running init_store)) = Some 401"
    by blast
  ultimately show ?thesis
    by simp
qed


section \<open>Deleting a book\<close>

lemma remove_first_match:
  "k < length xs \<Longrightarrow> \<forall>j<k. xs ! j \<noteq> xs ! k \<Longrightarrow>
   take k xs @ drop (Suc k) xs = remove1 (xs ! k) xs"
proof (induction xs arbitrary: k)
  case Nil
  then show ?case by simp
next
  case (Cons x xs)
  show ?case
  proof (cases k)
    case 0
    then show ?thesis by simp
  next
    case (Suc j)
    from Cons.prems(2) Suc have "(x # xs) ! 0 \<noteq> (x # xs) ! Suc j"
      by blast
    then have x: "x \<noteq> xs ! j"
      by simp
    have "\<forall>i<j. xs ! i \<noteq> xs ! j"
    proof (intro allI impI)
      fix i
      assume "i < j"
      then have "Suc i < k"
        using Suc by simp
      with Cons.prems(2) have "(x # xs) ! Suc i \<noteq> (x # xs) ! k"
        by blast
      with Suc show "xs ! i \<noteq> xs ! j"
        by simp
    qed
    with Cons.IH [of j] Cons.prems(1) Suc x show ?thesis
      by simp
  qed
qed

lemma delete_answer:
  assumes "req_method req = ''DELETE''" and "path_id (pathname req) = Some i"
    and "token_of req = Some DEMO_BEARER"
  shows "findIndex (\<lambda>b. book_id b = i) (books st) = Some idx \<Longrightarrow>
           status_of (handler rt ev req st) = Some 200
           \<and> body_of (handler rt ev req st) = Some (DataPayload (books st ! idx))
           \<and> store_of (handler rt ev req st)
               = st\<lparr>books := take idx (books st) @ drop (Suc idx) (books st)\<rparr>
           \<and> thrown (handler rt ev req st) = Some ERR_HTTP_HEADERS_SENT"
    and "findIndex (\<lambda>b. book_id b = i) (books st) = None \<Longrightarrow>
           status_of (handler rt ev req st) = Some 404"
proof -
  have m: "req_method req \<noteq> ''OPTIONS''"
    using assms(1) by simp
  {
    assume f: "findIndex (\<lambda>b. book_id b = i) (books st) = Some idx"
    have "try_block rt ev req st cors_res =
            respond rt 200 (DataPayload (books st ! idx))
              (st\<lparr>books := take idx (books st) @ drop (Suc idx) (books st)\<rparr>) cors_res"
      using f
      by (simp add: try_block_delete [OF assms] delete_book_def path_strict_eq [OF assms(2)])
    from answer_returned [OF m this writable_cors_res]
    show "status_of (handler rt ev req st) = Some 200
          \<and> body_of (handler rt ev req st) = Some (DataPayload (books st ! idx))
          \<and> store_of (handler rt ev req st)
              = st\<lparr>books := take idx (books st) @ drop (Suc idx) (books st)\<rparr>
          \<and> thrown (handler rt ev req st) = Some ERR_HTTP_HEADERS_SENT"
      by simp
  next
    assume f: "findIndex (\<lambda>b. book_id b = i) (books st) = None"
    have "try_block rt ev req st cors_res = respond rt 404 (ErrorPayload ''Not found'') st cors_res"
      using f
      by (simp add: try_block_delete [OF assms] delete_book_def path_strict_eq [OF assms(2)])
    from answer_returned(1) [OF m this writable_cors_res]
    show "status_of (handler rt ev req st) = Some 404" .
  }
qed

text \<open>
  Claim C8 says that a DELETE on \<open>/books/:id\<close> answered with 200 returns the removed
  record and removes that one record, and that a following GET on the same id is
  answered with 404.

  The DELETE does return the first record of that id and removes it and no other.
  The \<open>finally\<close> then calls \<open>setHeader\<close> on the ended response, which throws, and the
  listener's promise is rejected. Under Node's default handling of unhandled
  rejections the process ends there: the following GET, like any request after it,
  is not answered. Only a process that tolerates the rejection goes on to answer the
  GET, and with 404 when the ids of the store were distinct.
\<close>

theorem delete_then_read:
  assumes "req_method req = ''DELETE''" and "path_id (pathname req) = Some i"
    and "answer_status (answer rt ev req (Running st)) = Some 200"
  shows "\<exists>b. answer_body (answer rt ev req (Running st)) = Some (DataPayload b)
           \<and> book_id b = i
           \<and> b \<in> set (books st)
           \<and> books (store_of (handler rt ev req st)) = remove1 b (books st)
           \<and> length (books (store_of (handler rt ev req st))) + 1 = length (books st)
           \<and> nextId (store_of (handler rt ev req st)) = nextId st
           \<and> thrown (handler rt ev req st) = Some ERR_HTTP_HEADERS_SENT
           \<and> proceed rt Fatal ev req (Running st) = Exited
           \<and> (\<forall>ev' req'. answer rt ev' req' (proceed rt Fatal ev req (Running st)) = None)
           \<and> proceed rt Tolerated ev req (Running st) = Running (store_of (handler rt ev req st))
           \<and> (distinct (map book_id (books st)) \<longrightarrow>
                 (\<forall>x\<in>set (books (store_of (handler rt ev req st))). book_id x \<noteq> i)
                 \<and> (\<forall>ev' req'. req_method req' = ''GET'' \<and> path_id (pathname req') = Some i \<longrightarrow>
                       answer_status
                         (answer rt ev' req' (proceed rt Tolerated ev req (Running st)))
                         = Some 404))"
proof -
  from assms(3) have ok: "status_of (handler rt ev req st) = Some 200"
    by simp
  have tok: "token_of req = Some DEMO_BEARER"
  proof (rule ccontr)
    assume "token_of req \<noteq> Some DEMO_BEARER"
    with assms(1) path_id_starts_with [OF assms(2)]
    have "status_of (handler rt ev req st) = Some 401"
      by (intro missing_header_rejected) simp_all
    with ok show False
      by simp
  qed
  note d = delete_answer [OF assms(1,2) tok, of st]
  obtain idx where idx: "findIndex (\<lambda>b. book_id b = i) (books st) = Some idx"
  proof (cases "findIndex (\<lambda>b. book_id b = i) (books st)")
    case None
    from d(2) [OF None, of rt ev] ok show ?thesis
      by simp
  next
    case (Some k)
    then show ?thesis by (rule that)
  qed
  note found = findIndex_Some [OF idx]
  note out = d(1) [OF idx, of rt ev]
  let ?b = "books st ! idx"
  let ?st' = "store_of (handler rt ev req st)"
  have first: "\<forall>j<idx. books st ! j \<noteq> ?b"
    using found by auto
  have after: "books ?st' = remove1 ?b (books st)"
    using out found by (simp add: remove_first_match [OF _ first])
  have mem: "?b \<in> set (books st)"
    using found by simp
  have len: "length (books ?st') + 1 = length (books st)"
  proof -
    from mem have "0 < length (books st)"
      by (cases "books st") simp_all
    with mem show ?thesis
      by (simp add: after length_remove1)
  qed
  from out have thr: "thrown (handler rt ev req st) = Some ERR_HTTP_HEADERS_SENT"
    by simp
  have fatal: "proceed rt Fatal ev req (Running st) = Exited"
    by (rule proceed_fatal [OF thr])
  have tolerated: "proceed rt Tolerated ev req (Running st) = Running ?st'"
    by (rule proceed_tolerated)
  have gone: "\<forall>x\<in>set (books ?st'). book_id x \<noteq> i" if ids: "distinct (map book_id (books st))"
  proof
    fix x
    assume x: "x \<in> set (books ?st')"
    from ids have dist: "distinct (books st)"
      by (rule distinct_map [THEN iffD1, THEN conjunct1])
    from x after dist have x: "x \<in> set (books st)" "x \<noteq> ?b"
      by simp_all
    from ids have "inj_on book_id (set (books st))"
      by (simp add: distinct_map)
    with x mem have "book_id x \<noteq> book_id ?b"
      by (auto dest: inj_onD)
    with found show "book_id x \<noteq> i"
      by simp
  qed
  have read: "answer_status (answer rt ev' req' (proceed rt Tolerated ev req (Running st)))
                = Some 404"
    if "distinct (map book_id (books st))"
      and "req_method req' = ''GET'' \<and> path_id (pathname req') = Some i" for ev' req'
  proof -
    from gone [OF that(1)] have "find (\<lambda>b. book_id b = i) (books ?st') = None"
      by (simp add: find_None_iff)
    with that(2) have "status_of (handler rt ev' req' ?st') = Some 404"
      by (intro get_answer(2)) simp_all
    then show ?thesis
      by (simp add: tolerated)
  qed
  show ?thesis
  proof (intro exI [of _ ?b] conjI)
    show "answer_body (answer rt ev req (Running st)) = Some (DataPayload ?b)"
      using out by simp
    show "book_id ?b = i" "?b \<in> set (books st)"
      using found by simp_all
    show "books ?st' = remove1 ?b (books st)"
      by (rule after)
    show "length (books ?st') + 1 = length (books st)"
      by (rule len)
    show "nextId ?st' = nextId st"
      using out by simp
    show "thrown (handler rt ev req st) = Some ERR_HTTP_HEADERS_SENT"
      by (rule thr)
    show "proceed rt Fatal ev req (Running st) = Exited"
      by (rule fatal)
    show "\<forall>ev' req'. answer rt ev' req' (proceed rt Fatal ev req (Running st)) = None"
      by (simp add: fatal)
    show "proceed rt Tolerated ev req (Running st) = Running ?st'"
      by (rule tolerated)
    show "distinct (map book_id (books st)) \<longrightarrow>
            (\<forall>x\<in>set (books ?st'). book_id x \<noteq> i)
            \<and> (\<forall>ev' req'. req_method req' = ''GET'' \<and> path_id (pathname req') = Some i \<longrightarrow>
                  answer_status (answer rt ev' req' (proceed rt Tolerated ev req (Running st)))
                    = Some 404)"
      using gone read by blast
  qed
qed

definition delete_book_2 :: request where
  "delete_book_2 = mk_request ''DELETE'' ''/books/2'' [] bearer_ok []"

definition get_book_2 :: request where
  "get_book_2 = mk_request ''GET'' ''/books/2'' [] None []"

lemma path_id_books_2: "path_id ''/books/2'' = Some (Fin 2)"
  by (simp add: path_id_def bookMatch_def is_digit_def Number_digits_def digit_val_def
      round53_exact)

definition store_without_2 :: store where
  "store_without_2 =
     \<lparr>books =
        [\<lparr>book_id = Fin 1, title = ''Eloquent JS'', author = ''Marijn Haverbeke''\<rparr>,
         \<lparr>book_id = Fin 3, title = ''Clean Code'', author = ''Robert C. Martin''\<rparr>],
      nextId = Fin 4\<rparr>"

lemma delete_book_2_answer:
  "status_of (handler sample_runtime sample_env delete_book_2 init_store) = Some 200"
  "body_of (handler sample_runtime sample_env delete_book_2 init_store)
     = Some (DataPayload \<lparr>book_id = Fin 2, title = ''You Don't Know JS'', author = ''Kyle Simpson''\<rparr>)"
  "store_of (handler sample_runtime sample_env delete_book_2 init_store) = store_without_2"
  "thrown (handler sample_runtime sample_env delete_book_2 init_store) = Some ERR_HTTP_HEADERS_SENT"
proof -
  have m: "req_method delete_book_2 = ''DELETE''"
    and p: "path_id (pathname delete_book_2) = Some (Fin 2)"
    by (simp_all add: delete_book_2_def mk_request_def path_id_books_2)
  have t: "token_of delete_book_2 = Some DEMO_BEARER"
    by (simp add: delete_book_2_def token_of_bearer_ok)
  have i: "findIndex (\<lambda>b. book_id b = Fin 2) (books init_store) = Some 1"
    by (simp add: init_store_def)
  have second: "books init_store ! 1
      = \<lparr>book_id = Fin 2, title = ''You Don't Know JS'', author = ''Kyle Simpson''\<rparr>"
    and rest: "init_store\<lparr>books := take 1 (books init_store) @ drop (Suc 1) (books init_store)\<rparr>
      = store_without_2"
    by (simp_all add: init_store_def store_without_2_def)
  from delete_answer(1) [OF m p t i, of sample_runtime sample_env]
  show "status_of (handler sample_runtime sample_env delete_book_2 init_store) = Some 200"
    "body_of (handler sample_runtime sample_env delete_book_2 init_store)
       = Some (DataPayload \<lparr>book_id = Fin 2, title = ''You Don't Know JS'', author = ''Kyle Simpson''\<rparr>)"
    "store_of (handler sample_runtime sample_env delete_book_2 init_store) = store_without_2"
    "thrown (handler sample_runtime sample_env delete_book_2 init_store) = Some ERR_HTTP_HEADERS_SENT"
    unfolding second rest by simp_all
qed

text \<open>
  A process that is started again after that has the seeded store: the record is
  back.
\<close>

lemma seeded_record_after_restart:
  "answer_status (answer sample_runtime sample_env get_book_2 (Running init_store)) = Some 200"
proof -
  have g: "req_method get_book_2 = ''GET''" "path_id (pathname get_book_2) = Some (Fin 2)"
    by (simp_all add: get_book_2_def mk_request_def path_id_books_2)
  have "find (\<lambda>b. book_id b = Fin 2) (books init_store)
          = Some \<lparr>book_id = Fin 2, title = ''You Don't Know JS'', author = ''Kyle Simpson''\<rparr>"
    by (simp add: init_store_def)
  from get_answer(1) [OF g this, of sample_runtime sample_env] show ?thesis
    by simp
qed

theorem delete_then_read_witness:
  "answer_status (answer sample_runtime sample_env delete_book_2 (Running init_store)) = Some 200
   \<and> answer_body (answer sample_runtime sample_env delete_book_2 (Running init_store))
       = Some (DataPayload \<lparr>book_id = Fin 2, title = ''You Don't Know JS'', author = ''Kyle Simpson''\<rparr>)
   \<and> map book_id (books (store_of (handler sample_runtime sample_env delete_book_2 init_store)))
       = [Fin 1, Fin 3]
   \<and> proceed sample_runtime Fatal sample_env delete_book_2 (Running init_store) = Exited
   \<and> answer sample_runtime sample_env get_book_2
        (proceed sample_runtime Fatal sample_env delete_book_2 (Running init_store)) = None
   \<and> answer_status (answer sample_runtime sample_env get_book_2
        (proceed sample_runtime Tolerated sample_env delete_book_2 (Running init_store))) = Some 404"
proof -
  let ?out = "handler sample_runtime sample_env delete_book_2 init_store"
  have m: "req_method delete_book_2 = ''DELETE''"
    and p: "path_id (pathname delete_book_2) = Some (Fin 2)"
    by (simp_all add: delete_book_2_def mk_request_def path_id_books_2)
  have s: "answer_status (answer sample_runtime sample_env delete_book_2 (Running init_store)) = Some 200"
    by (simp add: delete_book_2_answer(1))
  have g: "req_method get_book_2 = ''GET'' \<and> path_id (pathname get_book_2) = Some (Fin 2)"
    by (simp add: get_book_2_def mk_request_def path_id_books_2)
  have ids: "distinct (map book_id (books init_store))"
    by (simp add: init_store_def)
  from delete_then_read [OF m p s]
  obtain b
    where fatal: "proceed sample_runtime Fatal sample_env delete_book_2 (Running init_store) = Exited"
    and silent: "\<forall>ev' req'. answer sample_runtime ev' req'
                   (proceed sample_runtime Fatal sample_env delete_book_2 (Running init_store)) = None"
    and later: "distinct (map book_id (books init_store)) \<longrightarrow>
                 (\<forall>x\<in>set (books (store_of ?out)). book_id x \<noteq> Fin 2)
                 \<and> (\<forall>ev' req'. req_method req' = ''GET'' \<and> path_id (pathname req') = Some (Fin 2) \<longrightarrow>
                       answer_status
                         (answer sample_runtime ev' req'
                            (proceed sample_runtime Tolerated sample_env delete_book_2 (Running init_store)))
                         = Some 404)"
    by (elim exE conjE) (rule that; assumption)
  from silent
  have "answer sample_runtime sample_env get_book_2
          (proceed sample_runtime Fatal sample_env delete_book_2 (Running init_store)) = None"
    by blast
  moreover from later ids g
  have "answer_status (answer sample_runtime sample_env get_book_2
          (proceed sample_runtime Tolerated sample_env delete_book_2 (Running init_store))) = Some 404"
    by blast
  moreover have "map book_id (books (store_of ?out)) = [Fin 1, Fin 3]"
    by (simp add: delete_book_2_answer(3) store_without_2_def)
  ultimately show ?thesis
    using fatal by (simp add: delete_book_2_answer(1,2))
qed


section \<open>Ids over a run of requests\<close>

text \<open>
  A run hands a list of requests to the process one after the other. Of each answer
  it records whether it reports a created record (status 201) or a removed one
  (status 200 to a DELETE), with the id. A process that has ended answers nothing.
\<close>

datatype event = Created jsnum | Removed jsnum | Quiet

definition event_of :: "request \<Rightarrow> wire option \<Rightarrow> event" where
  \<comment> \<open>what a client can tell from an answer: 201 carries the record just created, 200
      to a DELETE carries the record just removed\<close>
  "event_of req ans =
     (case answer_body ans of
        Some (DataPayload b) \<Rightarrow>
          if answer_status ans = Some 201 then Created (book_id b)
          else if answer_status ans = Some 200 \<and> req_method req = ''DELETE''
            then Removed (book_id b)
          else Quiet
      | _ \<Rightarrow> Quiet)"

fun run :: "'n runtime \<Rightarrow> unhandled_rejections \<Rightarrow> (env \<times> request) list \<Rightarrow> process
            \<Rightarrow> event list \<times> process" where
  "run rt mode [] p = ([], p)"
| "run rt mode ((ev, req) # cs) p =
     (let rest = run rt mode cs (proceed rt mode ev req p)
      in (event_of req (answer rt ev req p) # fst rest, snd rest))"

fun created_ids :: "event list \<Rightarrow> jsnum list" where
  "created_ids [] = []"
| "created_ids (Created c # es) = c # created_ids es"
| "created_ids (e # es) = created_ids es"


text \<open>
  The invariant of a store with room for \<open>k\<close> more requests: the counter is a
  positive integer more than \<open>k\<close> below \<open>2^53\<close>, and the ids are distinct positive
  integers below the counter.
\<close>

definition count :: "store \<Rightarrow> int" where
  "count st = (case nextId st of Fin n \<Rightarrow> n | _ \<Rightarrow> 0)"

definition store_ok :: "nat \<Rightarrow> store \<Rightarrow> bool" where
  "store_ok k st =
     (\<exists>n. nextId st = Fin n \<and> 0 < n \<and> n + int k < 2 ^ 53
          \<and> distinct (map book_id (books st))
          \<and> (\<forall>b\<in>set (books st). \<exists>i. book_id b = Fin i \<and> 0 < i \<and> i < n))"

definition advances :: "nat \<Rightarrow> store \<Rightarrow> store \<Rightarrow> bool" where
  \<comment> \<open>the invariant is kept, with one request less to go, and the counter does not go
      back\<close>
  "advances k st st' = (store_ok k st' \<and> count st \<le> count st')"

lemma store_ok_init: "4 + int k < 2 ^ 53 \<Longrightarrow> store_ok k init_store"
  by (simp add: store_ok_def init_store_def)



lemma ids_update:
  "idx < length bs \<Longrightarrow> book_id b = book_id (bs ! idx) \<Longrightarrow>
   map book_id (bs[idx := b]) = map book_id bs"
  by (simp add: map_update list_update_same_conv)

lemma distinct_remove_nth:
  assumes "distinct xs"
  shows "distinct (take k xs @ drop (Suc k) xs)"
proof -
  have "distinct (take k xs @ drop k xs)"
    using assms by simp
  then have "set (take k xs) \<inter> set (drop k xs) = {}"
    by (simp only: distinct_append)
  moreover have "set (drop (Suc k) xs) \<subseteq> set (drop k xs)"
    by (rule set_drop_subset_set_drop) simp
  ultimately have "set (take k xs) \<inter> set (drop (Suc k) xs) = {}"
    by blast
  with assms show ?thesis
    by simp
qed

lemma advances_refl: "store_ok (Suc k) st \<Longrightarrow> advances k st st"
  by (auto simp: advances_def store_ok_def)

lemma counter_in_room:
  assumes "store_ok (Suc k) st"
  shows "js_add (nextId st) (Fin 1) = Fin (count st + 1)"
proof -
  from assms obtain n where n: "nextId st = Fin n" "0 < n" "n + int (Suc k) < 2 ^ 53"
    by (auto simp: store_ok_def)
  then have "js_add (Fin n) (Fin 1) = Fin (n + 1)"
    by (intro counter_exact) simp_all
  with n show ?thesis
    by (simp add: count_def)
qed

lemma advances_counter:
  assumes "store_ok (Suc k) st"
  shows "advances k st (st\<lparr>nextId := js_add (nextId st) (Fin 1)\<rparr>)"
proof -
  from assms obtain n where n: "nextId st = Fin n" "0 < n" "n + int (Suc k) < 2 ^ 53"
    and d: "distinct (map book_id (books st))"
    and below: "\<forall>b\<in>set (books st). \<exists>i. book_id b = Fin i \<and> 0 < i \<and> i < n"
    by (auto simp: store_ok_def)
  from n have c: "count st = n"
    by (simp add: count_def)
  from below have "\<forall>b\<in>set (books st). \<exists>i. book_id b = Fin i \<and> 0 < i \<and> i < n + 1"
    by force
  with n d show ?thesis
    unfolding advances_def store_ok_def counter_in_room [OF assms] c
    by (simp add: count_def)
qed

lemma advances_push:
  assumes "store_ok (Suc k) st"
  shows "advances k st
           (st\<lparr>nextId := js_add (nextId st) (Fin 1),
               books := books st @ [\<lparr>book_id = nextId st, title = t, author = a\<rparr>]\<rparr>)"
proof -
  from assms obtain n where n: "nextId st = Fin n" "0 < n" "n + int (Suc k) < 2 ^ 53"
    and d: "distinct (map book_id (books st))"
    and below: "\<forall>b\<in>set (books st). \<exists>i. book_id b = Fin i \<and> 0 < i \<and> i < n"
    by (auto simp: store_ok_def)
  from n have c: "count st = n"
    by (simp add: count_def)
  from below have fresh: "Fin n \<notin> book_id ` set (books st)"
    by force
  from below have "\<forall>b\<in>set (books st). \<exists>i. book_id b = Fin i \<and> 0 < i \<and> i < n + 1"
    by force
  with n d fresh show ?thesis
    unfolding advances_def store_ok_def counter_in_room [OF assms] c
    by (simp add: count_def)
qed

lemma advances_update:
  assumes "store_ok (Suc k) st" and "idx < length (books st)"
    and "book_id b = book_id (books st ! idx)"
  shows "advances k st (st\<lparr>books := (books st)[idx := b]\<rparr>)"
proof -
  from assms(1) obtain n where n: "nextId st = Fin n" "0 < n" "n + int (Suc k) < 2 ^ 53"
    and d: "distinct (map book_id (books st))"
    and below: "\<forall>b\<in>set (books st). \<exists>i. book_id b = Fin i \<and> 0 < i \<and> i < n"
    by (auto simp: store_ok_def)
  have "\<exists>i. book_id x = Fin i \<and> 0 < i \<and> i < n" if "x \<in> set ((books st)[idx := b])" for x
  proof -
    from that have "x = b \<or> x \<in> set (books st)"
      using set_update_subset_insert [of "books st" idx b] by auto
    with assms(2,3) below show ?thesis
      by (auto simp: nth_mem)
  qed
  with n d assms(2,3) show ?thesis
    by (auto simp: advances_def store_ok_def ids_update count_def)
qed

lemma advances_remove:
  assumes "store_ok (Suc k) st"
  shows "advances k st (st\<lparr>books := take idx (books st) @ drop (Suc idx) (books st)\<rparr>)"
proof -
  from assms obtain n where n: "nextId st = Fin n" "0 < n" "n + int (Suc k) < 2 ^ 53"
    and d: "distinct (map book_id (books st))"
    and below: "\<forall>b\<in>set (books st). \<exists>i. book_id b = Fin i \<and> 0 < i \<and> i < n"
    by (auto simp: store_ok_def)
  have "distinct (take idx (map book_id (books st)) @ drop (Suc idx) (map book_id (books st)))"
    using d by (rule distinct_remove_nth)
  moreover have "set (take idx (books st) @ drop (Suc idx) (books st)) \<subseteq> set (books st)"
    by (auto dest: in_set_takeD in_set_dropD)
  ultimately show ?thesis
    using n below by (auto simp: advances_def store_ok_def take_map drop_map count_def)
qed

lemma advances_create:
  "store_ok (Suc k) st \<Longrightarrow> advances k st (store_of (create_book rt ev req st r))"
  using advances_push [of k st]
  by (auto simp: create_book_def Let_def store_of_respond store_of_throw advances_refl
      advances_counter split: sum.splits option.splits)

lemma advances_replace:
  assumes "store_ok (Suc k) st"
  shows "advances k st (store_of (replace_book rt req i st r))"
proof (cases "findIndex (\<lambda>b. strict_eq (book_id b) i) (books st)")
  case None
  with assms show ?thesis
    by (auto simp: replace_book_def store_of_respond store_of_throw advances_refl
        split: sum.splits)
next
  case (Some idx)
  from findIndex_Some [OF Some] assms
  have "advances k st (st\<lparr>books := (books st)[idx := \<lparr>book_id = i, title = t, author = a\<rparr>]\<rparr>)"
    for t a
    by (intro advances_update) (simp_all add: strict_eq_def)
  with Some assms show ?thesis
    by (auto simp: replace_book_def Let_def store_of_respond store_of_throw advances_refl
        split: sum.splits option.splits)
qed

lemma advances_patch:
  assumes "store_ok (Suc k) st"
  shows "advances k st (store_of (update_book rt req i st r))"
proof (cases "findIndex (\<lambda>b. strict_eq (book_id b) i) (books st)")
  case None
  with assms show ?thesis
    by (auto simp: update_book_def store_of_respond store_of_throw advances_refl
        split: sum.splits)
next
  case (Some idx)
  from findIndex_Some [OF Some] assms
  have "advances k st (st\<lparr>books := (books st)[idx := b]\<rparr>)"
    if "book_id b = book_id (books st ! idx)" for b
    using that by (intro advances_update) simp_all
  with Some assms show ?thesis
    by (auto simp: update_book_def Let_def store_of_respond store_of_throw advances_refl
        split: sum.splits option.splits)
qed

lemma advances_delete:
  "store_ok (Suc k) st \<Longrightarrow> advances k st (store_of (delete_book rt i st r))"
  by (auto simp: delete_book_def store_of_respond advances_refl advances_remove
      split: option.splits)

lemma advances_try_block:
  "store_ok (Suc k) st \<Longrightarrow> advances k st (store_of (try_block rt ev req st r))"
  by (simp add: try_block_def list_books_def get_book_def unauthorized_def store_of_respond
      store_of_throw advances_refl advances_create advances_replace advances_patch
      advances_delete split: option.splits sum.splits)

lemma advances_handler:
  "store_ok (Suc k) st \<Longrightarrow> advances k st (store_of (handler rt ev req st))"
  by (simp add: store_of_handler advances_refl advances_try_block)


definition creates :: "store \<Rightarrow> outcome \<Rightarrow> bool" where
  \<comment> \<open>an answer 201 carries a record whose id is the counter, and the counter was
      incremented\<close>
  "creates st out =
     (\<forall>w b. flushed (res_of out) = Some w \<and> w_status w = 201 \<and> w_body w = Some (DataPayload b) \<longrightarrow>
        book_id b = nextId st \<and> nextId (store_of out) = js_add (nextId st) (Fin 1))"


lemma creates_other: "writable r \<Longrightarrow> s \<noteq> 201 \<Longrightarrow> creates st (respond rt s p st' r)"
  by (auto simp: creates_def respond_open)

lemma creates_throw: "flushed r = None \<Longrightarrow> creates st (throw e st' r)"
  by (simp add: creates_def throw_def)

lemma creates_create:
  assumes "writable r"
  shows "creates st (create_book rt ev req st r)"
proof -
  from assms have f: "flushed r = None"
    by (simp add: writable_def)
  then have gone: "creates st (throw e st' (r\<lparr>destroyed := True\<rparr>))" for e st'
    by (simp add: creates_throw)
  from f have thrown: "creates st (throw e st' r)" for e st'
    by (rule creates_throw)
  have made: "creates st
                (respond rt 201 (DataPayload \<lparr>book_id = nextId st, title = t, author = a\<rparr>)
                   (st\<lparr>nextId := js_add (nextId st) (Fin 1), books := bs\<rparr>) r')"
    if "writable r'" for t a bs r'
    using that by (simp add: creates_def respond_open)
  show ?thesis
    using assms gone thrown made
    by (auto simp: create_book_def Let_def setHeader_open creates_other
        split: sum.splits option.splits)
qed

lemma creates_replace:
  assumes "writable r"
  shows "creates st (replace_book rt req i st r)"
proof -
  from assms have f: "flushed r = None"
    by (simp add: writable_def)
  then have gone: "creates st (throw e st' (r\<lparr>destroyed := True\<rparr>))" for e st'
    by (simp add: creates_throw)
  from f have thrown: "creates st (throw e st' r)" for e st'
    by (rule creates_throw)
  show ?thesis
    using assms gone thrown
    by (auto simp: replace_book_def Let_def creates_other split: sum.splits option.splits)
qed

lemma creates_update:
  assumes "writable r"
  shows "creates st (update_book rt req i st r)"
proof -
  from assms have f: "flushed r = None"
    by (simp add: writable_def)
  then have gone: "creates st (throw e st' (r\<lparr>destroyed := True\<rparr>))" for e st'
    by (simp add: creates_throw)
  from f have thrown: "creates st (throw e st' r)" for e st'
    by (rule creates_throw)
  show ?thesis
    using assms gone thrown
    by (auto simp: update_book_def Let_def creates_other split: sum.splits option.splits)
qed

lemma creates_try_block: "writable r \<Longrightarrow> creates st (try_block rt ev req st r)"
  by (auto simp: try_block_def list_books_def get_book_def unauthorized_def delete_book_def
      setHeader_open creates_other creates_create creates_replace creates_update
      split: option.splits)





text \<open>
  An answer that carries a record is what the route wrote; the \<open>catch\<close> and the
  preflight branch write none.
\<close>

lemma data_answer:
  assumes "sent (handler rt ev req st) = Some w" and "w_body w = Some (DataPayload b)"
  shows "flushed (res_of (try_block rt ev req st cors_res)) = Some w
         \<and> store_of (handler rt ev req st) = store_of (try_block rt ev req st cors_res)"
proof (cases "req_method req = ''OPTIONS''")
  case True
  with assms show ?thesis
    by (auto simp: handler_options sent_def)
next
  case False
  show ?thesis
  proof (cases "thrown (try_block rt ev req st cors_res)")
    case None
    from handler_returned [OF False None] assms(1) False show ?thesis
      by (simp add: sent_def store_of_handler)
  next
    case (Some e)
    show ?thesis
    proof (cases "e = StreamFailure")
      case True
      with Some have "thrown (try_block rt ev req st cors_res) = Some StreamFailure"
        by simp
      from handler_stream_failed(2) [OF False this] assms(1) show ?thesis
        by (simp add: sent_def)
    next
      case other: False
      note c = handler_caught [OF False Some other]
      from c(1) assms show ?thesis
        by (auto simp: sent_def respond_open [OF c(2)])
    qed
  qed
qed

lemma event_created:
  assumes "event_of req (sent (handler rt ev req st)) = Created c"
  shows "c = nextId st \<and> nextId (store_of (handler rt ev req st)) = js_add (nextId st) (Fin 1)"
proof -
  from assms obtain w b where w: "sent (handler rt ev req st) = Some w"
    and b: "w_body w = Some (DataPayload b)" and s: "w_status w = 201" and c: "c = book_id b"
    by (auto simp: event_of_def answer_body_def answer_status_def
        split: option.splits payload.splits if_splits)
  from data_answer [OF w b]
  have "flushed (res_of (try_block rt ev req st cors_res)) = Some w"
    and "store_of (handler rt ev req st) = store_of (try_block rt ev req st cors_res)"
    by simp_all
  with creates_try_block [OF writable_cors_res, of st rt ev req] b s c show ?thesis
    by (simp add: creates_def)
qed


lemma event_of_None [simp]: "event_of req None = Quiet"
  by (simp add: event_of_def answer_body_def)


lemma run_exited: "run rt mode cs Exited = (replicate (length cs) Quiet, Exited)"
  by (induction cs) (auto simp: Let_def)

lemma created_ids_quiet [simp]: "created_ids (replicate n Quiet) = []"
  by (induction n) simp_all


text \<open>
  One request from a store with room for it: the process has ended, or it runs with
  a store that has room for the requests left and a counter that did not go back;
  a created id is the counter, which then grew by one.
\<close>

lemma step_store:
  assumes "store_ok (Suc k) st" and "proceed rt mode ev req (Running st) = Running st'"
  shows "store_ok k st'" and "count st \<le> count st'"
    and "event_of req (sent (handler rt ev req st)) = Created c \<Longrightarrow> count st' = count st + 1"
proof -
  from proceed_cases [of rt mode ev req st] assms(2)
  have st': "st' = store_of (handler rt ev req st)"
    by auto
  from advances_handler [OF assms(1), of rt ev req] st'
  show "store_ok k st'" and "count st \<le> count st'"
    by (simp_all add: advances_def)
  assume "event_of req (sent (handler rt ev req st)) = Created c"
  from event_created [OF this] counter_in_room [OF assms(1)] st'
  show "count st' = count st + 1"
    by (simp add: count_def)
qed





lemma run_store_ok:
  "store_ok (length cs) st \<Longrightarrow> snd (run rt mode cs (Running st)) = Running st' \<Longrightarrow>
   store_ok 0 st'"
proof (induction cs arbitrary: st)
  case Nil
  then show ?case by simp
next
  case (Cons a cs)
  obtain ev req where a: "a = (ev, req)"
    by (cases a)
  from Cons.prems(1) have ok: "store_ok (Suc (length cs)) st"
    by simp
  let ?p = "proceed rt mode ev req (Running st)"
  from Cons.prems(2) a have fin: "snd (run rt mode cs ?p) = Running st'"
    by (simp add: Let_def)
  show ?case
  proof (cases ?p)
    case Exited
    with fin show ?thesis
      by (simp add: run_exited)
  next
    case (Running st1)
    from Cons.IH [OF step_store(1) [OF ok Running]] fin Running show ?thesis
      by simp
  qed
qed


text \<open>
  In the store a run below the counter limit ends with, the ids are distinct and no
  record has the counter's value as its id: the conditions under which a process that
  goes on answers the GET after a POST with the created record, and the GET after a
  DELETE with 404.
\<close>

lemma reached_store:
  assumes "4 + int (length cs) < 2 ^ 53"
    and "snd (run rt mode cs (Running init_store)) = Running st"
  shows "distinct (map book_id (books st))"
    and "\<forall>b\<in>set (books st). book_id b \<noteq> nextId st"
proof -
  from run_store_ok [OF store_ok_init [OF assms(1)] assms(2)] have ok: "store_ok 0 st" .
  then show "distinct (map book_id (books st))"
    by (auto simp: store_ok_def)
  from ok show "\<forall>b\<in>set (books st). book_id b \<noteq> nextId st"
    by (fastforce simp: store_ok_def)
qed

text \<open>
  With Node's default, a listener that returns without an exception has not changed
  the store: it answered a preflight request, or its request stream failed before
  the route changed anything. So a process that has not ended still has the store
  it started with: no request is ever answered from a changed store.
\<close>

lemma stream_failure_create:
  "writable r \<Longrightarrow> thrown (create_book rt ev req st r) = Some StreamFailure \<Longrightarrow>
   store_of (create_book rt ev req st r) = st"
  by (auto simp: create_book_def Let_def setHeader_open respond_open throw_def
      split: sum.splits option.splits if_splits)

lemma stream_failure_replace:
  "writable r \<Longrightarrow> thrown (replace_book rt req i st r) = Some StreamFailure \<Longrightarrow>
   store_of (replace_book rt req i st r) = st"
  by (auto simp: replace_book_def Let_def respond_open throw_def
      split: sum.splits option.splits if_splits)

lemma stream_failure_update:
  "writable r \<Longrightarrow> thrown (update_book rt req i st r) = Some StreamFailure \<Longrightarrow>
   store_of (update_book rt req i st r) = st"
  by (auto simp: update_book_def Let_def respond_open throw_def
      split: sum.splits option.splits if_splits)

lemma stream_failure_try_block:
  "writable r \<Longrightarrow> thrown (try_block rt ev req st r) = Some StreamFailure \<Longrightarrow>
   store_of (try_block rt ev req st r) = st"
  by (auto simp: try_block_def list_books_def get_book_def unauthorized_def delete_book_def
      setHeader_open respond_open stream_failure_create stream_failure_replace
      stream_failure_update split: option.splits if_splits)

lemma returned_store_unchanged:
  assumes "thrown (handler rt ev req st) = None"
  shows "store_of (handler rt ev req st) = st"
proof (cases "req_method req = ''OPTIONS''")
  case True
  then show ?thesis
    by (simp add: handler_options)
next
  case False
  show ?thesis
  proof (cases "thrown (try_block rt ev req st cors_res)")
    case None
    from handler_returned [OF False None] assms show ?thesis
      by simp
  next
    case (Some e)
    show ?thesis
    proof (cases "e = StreamFailure")
      case True
      with Some have t: "thrown (try_block rt ev req st cors_res) = Some StreamFailure"
        by simp
      from handler_stream_failed(3) [OF False t]
        stream_failure_try_block [OF writable_cors_res t]
      show ?thesis
        by simp
    next
      case other: False
      from handler_caught(1) [OF False Some other] assms show ?thesis
        by simp
    qed
  qed
qed

lemma fatal_run_store:
  "snd (run rt Fatal cs (Running st)) = Running st' \<Longrightarrow> st' = st"
proof (induction cs)
  case Nil
  then show ?case by simp
next
  case (Cons a cs)
  obtain ev req where a: "a = (ev, req)"
    by (cases a)
  show ?case
  proof (cases "thrown (handler rt ev req st)")
    case None
    then have "proceed rt Fatal ev req (Running st) = Running st"
      by (simp add: proceed_returned returned_store_unchanged)
    with Cons a show ?thesis
      by (simp add: Let_def)
  next
    case (Some e)
    then have "proceed rt Fatal ev req (Running st) = Exited"
      by (rule proceed_fatal)
    with Cons.prems a show ?thesis
      by (simp add: Let_def run_exited)
  qed
qed














end
